theory Spec2Isabelle
  imports Complex_Main "HOL-Library.Sublist" "HOL-Library.Monad_Syntax" "HOL-Library.AList"
begin

section \<open>Python text\<close>

text \<open>
  A Python \<open>str\<close> is a sequence of Unicode code points; a code point is modelled as an
  integer, so that the non-ASCII characters which the agents filter out or search for
  (the check-mark of the success banner is U+2705) are single elements, as in Python.
  \<open>py\<close> turns an (ASCII) literal into such a text.
\<close>

type_synonym pystr = "int list"

definition py :: "string \<Rightarrow> pystr" where
  "py s = map of_char s"

text \<open>\<open>sub in s\<close> on two texts: \<open>sub\<close> occurs in \<open>s\<close> as a contiguous block.\<close>

fun contains :: "pystr \<Rightarrow> pystr \<Rightarrow> bool" where
  "contains sub [] = (sub = [])"
| "contains sub (c # cs) = (prefix sub (c # cs) \<or> contains sub cs)"

text \<open>\<open>s.startswith(p)\<close>.\<close>

definition startswith :: "pystr \<Rightarrow> pystr \<Rightarrow> bool" where
  "startswith s p = prefix p s"

text \<open>
  The white space of \<open>str.strip()\<close> and of the regular expression class \<open>\s\<close> on text
  patterns: CPython consults the same table for both (the ASCII separators and controls
  9-13 and 28-32, NEL, the no-break space and the Unicode space separators).
\<close>

definition is_space :: "int \<Rightarrow> bool" where
  "is_space c =
     ((9 \<le> c \<and> c \<le> 13) \<or> (28 \<le> c \<and> c \<le> 32) \<or> c = 133 \<or> c = 160 \<or> c = 5760
      \<or> (8192 \<le> c \<and> c \<le> 8202) \<or> c = 8232 \<or> c = 8233 \<or> c = 8239 \<or> c = 8287
      \<or> c = 12288)"

text \<open>
  The class \<open>\w\<close> on text patterns: letters, digits and the underscore in ASCII; beyond
  ASCII it is the alphanumeric property of the Unicode character database, which is no
  part of this repository and is taken as the parameter \<open>ua\<close>. No white space character
  is alphanumeric, which the definition records.
\<close>

definition is_word :: "(int \<Rightarrow> bool) \<Rightarrow> int \<Rightarrow> bool" where
  "is_word ua c =
     (if c < 128
      then (48 \<le> c \<and> c \<le> 57) \<or> (65 \<le> c \<and> c \<le> 90) \<or> c = 95 \<or> (97 \<le> c \<and> c \<le> 122)
      else ua c \<and> \<not> is_space c)"

text \<open>\<open>s.strip()\<close>: white space removed at both ends.\<close>

definition strip :: "pystr \<Rightarrow> pystr" where
  "strip s = rev (dropWhile is_space (rev (dropWhile is_space s)))"

text \<open>
  \<open>s.split('\n')\<close>: the lines of a text. The result is never the empty list, so the
  second branch of the case distinction is never taken.
\<close>

fun split_nl :: "pystr \<Rightarrow> pystr list" where
  "split_nl [] = [[]]"
| "split_nl (c # cs) =
     (case split_nl cs of
        l # ls \<Rightarrow> (if c = 10 then [] # l # ls else (c # l) # ls)
      | [] \<Rightarrow> [])"

text \<open>\<open>'\n'.join(lines)\<close>.\<close>

fun join_nl :: "pystr list \<Rightarrow> pystr" where
  "join_nl [] = []"
| "join_nl [l] = l"
| "join_nl (l # ls) = l @ 10 # join_nl ls"

text \<open>\<open>s.encode('ascii', 'ignore').decode('ascii')\<close>: the code points below 128.\<close>

definition ascii_ignore :: "pystr \<Rightarrow> pystr" where
  "ascii_ignore s = filter (\<lambda>c. c < 128) s"

section \<open>Regular expressions of the repair rules\<close>

text \<open>
  \<open>re.sub(pattern, repl, s)\<close> scans \<open>s\<close> from the left; where the pattern matches it
  writes the replacement and goes on behind the match, elsewhere it copies one character.
  A matcher tells, for the text at the current position, the expanded replacement and the
  length of the match. None of the patterns below matches the empty text.
\<close>

fun re_sub :: "(pystr \<Rightarrow> (pystr \<times> nat) option) \<Rightarrow> pystr \<Rightarrow> pystr" where
  "re_sub m [] = []"
| "re_sub m (c # cs) =
     (case m (c # cs) of
        Some (repl, n) \<Rightarrow> repl @ re_sub m (drop (n - 1) cs)
      | None \<Rightarrow> c # re_sub m cs)"

text \<open>
  The pieces of the patterns. Every repetition is greedy, and in each pattern the
  character that must follow a repetition lies outside the repeated class, so the first
  match of the backtracking engine is the one that takes the longest run.
\<close>

definition lit :: "pystr \<Rightarrow> pystr \<Rightarrow> pystr option" where
  "lit p s = (if prefix p s then Some (drop (length p) s) else None)"

definition spaces0 :: "pystr \<Rightarrow> pystr option" where
  "spaces0 s = Some (dropWhile is_space s)"

definition spaces1 :: "pystr \<Rightarrow> pystr option" where
  "spaces1 s = (if takeWhile is_space s = [] then None else Some (dropWhile is_space s))"

definition word1 :: "(int \<Rightarrow> bool) \<Rightarrow> pystr \<Rightarrow> (pystr \<times> pystr) option" where
  "word1 ua s =
     (if takeWhile (is_word ua) s = [] then None
      else Some (takeWhile (is_word ua) s, dropWhile (is_word ua) s))"

text \<open>\<open>[^)]+\<close>: a non-empty run of characters other than the closing parenthesis.\<close>

definition not_rparen1 :: "pystr \<Rightarrow> (pystr \<times> pystr) option" where
  "not_rparen1 s =
     (if takeWhile (\<lambda>c. c \<noteq> 41) s = [] then None
      else Some (takeWhile (\<lambda>c. c \<noteq> 41) s, dropWhile (\<lambda>c. c \<noteq> 41) s))"

text \<open>
  \<open>(.*)\}\<close> under \<open>re.DOTALL\<close>: the group takes everything up to the last closing brace
  of the text. The result is the group and the text behind that brace.
\<close>

definition upto_last_rbrace :: "pystr \<Rightarrow> (pystr \<times> pystr) option" where
  "upto_last_rbrace s =
     (if 125 \<in> set s
      then Some (rev (tl (dropWhile (\<lambda>c. c \<noteq> 125) (rev s))),
                 rev (takeWhile (\<lambda>c. c \<noteq> 125) (rev s)))
      else None)"

text \<open>\<open>fn\s+main\s*\(\s*\)\s*\{(.*)\}\<close> with the replacement \<open>\1\<close> (agent_autofix).\<close>

definition match_fn_main :: "pystr \<Rightarrow> (pystr \<times> nat) option" where
  "match_fn_main s = do {
     s1 \<leftarrow> lit (py ''fn'') s;
     s2 \<leftarrow> spaces1 s1;
     s3 \<leftarrow> lit (py ''main'') s2;
     s4 \<leftarrow> spaces0 s3;
     s5 \<leftarrow> lit (py ''('') s4;
     s6 \<leftarrow> spaces0 s5;
     s7 \<leftarrow> lit (py '')'') s6;
     s8 \<leftarrow> spaces0 s7;
     s9 \<leftarrow> lit (py ''{'') s8;
     (body, rest) \<leftarrow> upto_last_rbrace s9;
     Some (body, length s - length rest)
   }"

text \<open>\<open>let\s+\((\w+),\)\s*=\<close> with the replacement \<open>let \1 =\<close> (agent_autofix).\<close>

definition match_let_tuple :: "(int \<Rightarrow> bool) \<Rightarrow> pystr \<Rightarrow> (pystr \<times> nat) option" where
  "match_let_tuple ua s = do {
     s1 \<leftarrow> lit (py ''let'') s;
     s2 \<leftarrow> spaces1 s1;
     s3 \<leftarrow> lit (py ''('') s2;
     (w, s4) \<leftarrow> word1 ua s3;
     s5 \<leftarrow> lit (py '',)'') s4;
     s6 \<leftarrow> spaces0 s5;
     s7 \<leftarrow> lit (py ''='') s6;
     Some (py ''let '' @ w @ py '' ='', length s - length s7)
   }"

section \<open>Pattern Fix Engine (agent_autofix.apply_rule_based_fixes)\<close>

text \<open>The four repair steps, in the order of the source; each works on \<open>fixed_code\<close>.\<close>

definition add_wrapper :: "pystr \<Rightarrow> pystr \<Rightarrow> pystr" where
  "add_wrapper error_message fixed_code =
     (if contains (py ''expected program'') error_message
      then py ''fn main() -> () {\<newline>'' @ fixed_code @ py ''\<newline>    ()\<newline>}''
      else fixed_code)"

definition remove_comments :: "pystr \<Rightarrow> pystr \<Rightarrow> pystr" where
  "remove_comments error_message fixed_code =
     (if contains (py ''expected EOI or item'') error_message
      then join_nl (filter (\<lambda>line. \<not> startswith (strip line) (py ''//'')) (split_nl fixed_code))
      else fixed_code)"

definition dedent :: "pystr \<Rightarrow> pystr" where
  "dedent line = (if startswith line (py ''    '') then drop 4 line else line)"

definition remove_wrapper :: "pystr \<Rightarrow> pystr" where
  "remove_wrapper fixed_code =
     (if contains (py ''fn main()'') fixed_code \<or> contains (py ''fn main ('') fixed_code
      then join_nl (map dedent (split_nl (re_sub match_fn_main fixed_code)))
      else fixed_code)"

definition tuple_patterns :: "(int \<Rightarrow> bool) \<Rightarrow> pystr \<Rightarrow> pystr" where
  "tuple_patterns ua fixed_code =
     (if contains (py ''let ('') fixed_code \<and> contains (py '',)'') fixed_code
      then re_sub (match_let_tuple ua) fixed_code
      else fixed_code)"

definition apply_rule_based_fixes :: "(int \<Rightarrow> bool) \<Rightarrow> pystr \<Rightarrow> pystr \<Rightarrow> pystr" where
  "apply_rule_based_fixes ua source_code error_message =
     (let fixed_code = source_code;
          fixed_code = add_wrapper error_message fixed_code;
          fixed_code = remove_comments error_message fixed_code;
          fixed_code = remove_wrapper fixed_code;
          fixed_code = tuple_patterns ua fixed_code
      in strip fixed_code @ py ''\<newline>'')"

section \<open>The rule-based fixer of the delegated engine (SimplicityFixAgent.apply_rule_based_fixes)\<close>

text \<open>\<open>fn\s+main\(\)\s*\{(.*)\}\<close> with the replacement \<open>\1\<close> (agent_claude).\<close>

definition match_fn_main_agent :: "pystr \<Rightarrow> (pystr \<times> nat) option" where
  "match_fn_main_agent s = do {
     s1 \<leftarrow> lit (py ''fn'') s;
     s2 \<leftarrow> spaces1 s1;
     s3 \<leftarrow> lit (py ''main()'') s2;
     s4 \<leftarrow> spaces0 s3;
     s5 \<leftarrow> lit (py ''{'') s4;
     (body, rest) \<leftarrow> upto_last_rbrace s5;
     Some (body, length s - length rest)
   }"

text \<open>
  \<open>let\s+(\w+)\s*=\s*(jet::\w+\([^)]+\));\<close> with the replacement \<open>let (\1,) = \2;\<close>.
\<close>

definition match_let_jet :: "(int \<Rightarrow> bool) \<Rightarrow> pystr \<Rightarrow> (pystr \<times> nat) option" where
  "match_let_jet ua s = do {
     s1 \<leftarrow> lit (py ''let'') s;
     s2 \<leftarrow> spaces1 s1;
     (v, s3) \<leftarrow> word1 ua s2;
     s4 \<leftarrow> spaces0 s3;
     s5 \<leftarrow> lit (py ''='') s4;
     s6 \<leftarrow> spaces0 s5;
     s7 \<leftarrow> lit (py ''jet::'') s6;
     (f, s8) \<leftarrow> word1 ua s7;
     s9 \<leftarrow> lit (py ''('') s8;
     (args, s10) \<leftarrow> not_rparen1 s9;
     s11 \<leftarrow> lit (py '')'') s10;
     s12 \<leftarrow> lit (py '';'') s11;
     Some (py ''let ('' @ v @ py '',) = '' @ py ''jet::'' @ f @ py ''('' @ args @ py '')'' @ py '';'',
           length s - length s12)
   }"

text \<open>\<open>assert!\(([^)]+)\);\<close> with the replacement \<open>jet::verify(\1);\<close>.\<close>

definition match_assert :: "pystr \<Rightarrow> (pystr \<times> nat) option" where
  "match_assert s = do {
     s1 \<leftarrow> lit (py ''assert!('') s;
     (cond, s2) \<leftarrow> not_rparen1 s1;
     s3 \<leftarrow> lit (py '');'') s2;
     Some (py ''jet::verify('' @ cond @ py '');'', length s - length s3)
   }"

text \<open>The method does not look at \<open>error_message\<close>.\<close>

definition agent_apply_rule_based_fixes :: "(int \<Rightarrow> bool) \<Rightarrow> pystr \<Rightarrow> 'e \<Rightarrow> pystr" where
  "agent_apply_rule_based_fixes ua source_code error_message =
     (let fixed_code = source_code;
          fixed_code = (if contains (py ''fn main()'') fixed_code
                        then re_sub match_fn_main_agent fixed_code else fixed_code);
          fixed_code = re_sub (match_let_jet ua) fixed_code;
          fixed_code = re_sub match_assert fixed_code
      in fixed_code)"

section \<open>Values, exceptions and the external collaborators\<close>

text \<open>
  What \<open>json.loads\<close> can return, which is also what the variables \<open>error_msg\<close> and (in
  agent_claude) \<open>current_code\<close> can hold: the annotations say \<open>str\<close>, the decoded payload
  decides. A dictionary is an association list, read with \<open>map_of\<close>.
\<close>

datatype pyval =
    PNone
  | PBool bool
  | PInt int
  | PFloat real
  | PStr pystr
  | PList "pyval list"
  | PDict "(pystr \<times> pyval) list"

text \<open>
  The exceptions of the model. \<open>KeyboardInterrupt\<close> stands for the exceptions that are no
  subclass of \<open>Exception\<close>: an \<open>except Exception\<close> clause lets them pass, a bare
  \<open>except:\<close> catches them too. \<open>External\<close> carries the number of a failure of a
  collaborator (compiler transport, reasoning service, file system).
\<close>

datatype exn =
    TypeError
  | KeyError
  | AttributeError
  | IndexError
  | ValueError
  | JSONDecodeError
  | OverflowError
  | ZeroDivisionError
  | KeyboardInterrupt
  | External nat

definition is_Exception :: "exn \<Rightarrow> bool" where
  "is_Exception e = (e \<noteq> KeyboardInterrupt)"

text \<open>
  \<open>s.find(sub)\<close>: the lowest index where \<open>sub\<close> starts in \<open>s\<close>, or -1. The search
  carries the index of the position it looks at.
\<close>

fun find_at :: "int \<Rightarrow> pystr \<Rightarrow> pystr \<Rightarrow> int" where
  "find_at i [] sub = (if sub = [] then i else - 1)"
| "find_at i (c # cs) sub = (if prefix sub (c # cs) then i else find_at (i + 1) cs sub)"

definition find :: "pystr \<Rightarrow> pystr \<Rightarrow> int" where
  "find s sub = find_at 0 s sub"

text \<open>
  Slice bounds as Python normalises them: a negative bound counts from the end, and every
  bound is clipped to the text.
\<close>

definition slice_index :: "int \<Rightarrow> nat \<Rightarrow> nat" where
  "slice_index i n = (if i < 0 then nat (max 0 (i + int n)) else min (nat i) n)"

definition slice :: "pystr \<Rightarrow> int \<Rightarrow> int \<Rightarrow> pystr" where
  "slice s i j =
     (let a = slice_index i (length s); b = slice_index j (length s)
      in take (b - a) (drop a s))"

definition slice_from :: "pystr \<Rightarrow> int \<Rightarrow> pystr" where
  "slice_from s i = drop (slice_index i (length s)) s"

text \<open>\<open>s.find(sub, start)\<close>.\<close>

definition find_from :: "pystr \<Rightarrow> pystr \<Rightarrow> int \<Rightarrow> int" where
  "find_from s sub start =
     (let a = (if start < 0 then max 0 (start + int (length s)) else start)
      in if int (length s) < a then - 1
         else (let r = find (drop (nat a) s) sub in if r < 0 then - 1 else r + a))"

text \<open>
  \<open>result.content[0].text if result.content else ""\<close>: the answer of the compiler tool is
  the list of the texts of its content items.
\<close>

definition content_text :: "pystr list \<Rightarrow> pystr" where
  "content_text content = (case content of [] \<Rightarrow> [] | t # _ \<Rightarrow> t)"

section \<open>Diagnostic Extractor\<close>

text \<open>
  The body of the \<open>try\<close> block that both controllers run on a failed response:
  \<^verbatim>\<open>
  json_start = content.find('{')
  json_data = json.loads(content[json_start:])
  if isinstance(json_data, dict) and "result_json" in json_data:
      error_msg = json_data["result_json"].get("message", error_msg)
  \<close>
  Its value is the new \<open>error_msg\<close>; every way in which it can raise is a result \<open>Inl\<close>.
  \<open>json.loads\<close> is the library's and is the parameter \<open>loads\<close>, \<open>None\<close> where it raises.
\<close>

definition parse_message :: "(pystr \<Rightarrow> pyval option) \<Rightarrow> pystr \<Rightarrow> exn + pyval" where
  "parse_message loads content =
     (let json_start = find content (py ''{'')
      in case loads (slice_from content json_start) of
           None \<Rightarrow> Inl JSONDecodeError
         | Some json_data \<Rightarrow>
             (case json_data of
                PDict d \<Rightarrow>
                  (case map_of d (py ''result_json'') of
                     None \<Rightarrow> Inr (PStr content)
                   | Some (PDict r) \<Rightarrow>
                       Inr (case map_of r (py ''message'') of
                              None \<Rightarrow> PStr content | Some m \<Rightarrow> m)
                   | Some _ \<Rightarrow> Inl AttributeError)
              | _ \<Rightarrow> Inr (PStr content)))"

text \<open>
  \<open>try: ... except: pass\<close> around it, behind the test for the trigger text: whatever
  the block raises, \<open>error_msg\<close> keeps the raw text.
\<close>

definition extract_error :: "pystr \<Rightarrow> (pystr \<Rightarrow> pyval option) \<Rightarrow> pystr \<Rightarrow> pyval" where
  "extract_error trigger loads content =
     (if contains trigger content
      then (case parse_message loads content of Inl e \<Rightarrow> PStr content | Inr v \<Rightarrow> v)
      else PStr content)"

text \<open>
  The extractor of agent_autofix works on the response without its non-ASCII characters;
  its success marker is \<open>Compilation successful!\<close> and its trigger \<open>message\<close>.
\<close>

definition succeeded_autofix :: "pystr \<Rightarrow> bool" where
  "succeeded_autofix content = contains (py ''Compilation successful!'') (ascii_ignore content)"

definition extract_autofix :: "(pystr \<Rightarrow> pyval option) \<Rightarrow> pystr \<Rightarrow> bool \<times> pyval" where
  "extract_autofix loads content =
     (let content_safe = ascii_ignore content
      in (contains (py ''Compilation successful!'') content_safe,
          extract_error (py ''message'') loads content_safe))"

text \<open>
  The extractor of agent_claude works on the response as it is; its marker starts with the
  check-mark U+2705 and its trigger is \<open>message":\<close>.
\<close>

definition success_marker_agent :: pystr where
  "success_marker_agent = 9989 # py '' Compilation successful!''"

definition extract_agent :: "(pystr \<Rightarrow> pyval option) \<Rightarrow> pystr \<Rightarrow> bool \<times> pyval" where
  "extract_agent loads content =
     (contains success_marker_agent content,
      extract_error (py ''message\":'') loads content)"

section \<open>Retry Controller of agent_autofix (compile_and_fix)\<close>

text \<open>
  \<open>fix_code_with_llm\<close>: no provider is wired in, every branch hands over to the rules.
\<close>

definition LLM_PROVIDER :: pystr where
  "LLM_PROVIDER = py ''anthropic''"

definition fix_code_with_llm :: "(int \<Rightarrow> bool) \<Rightarrow> pystr \<Rightarrow> pystr \<Rightarrow> int \<Rightarrow> pystr" where
  "fix_code_with_llm ua source_code error_message attempt =
     (if LLM_PROVIDER = py ''anthropic'' then apply_rule_based_fixes ua source_code error_message
      else if LLM_PROVIDER = py ''openai'' then apply_rule_based_fixes ua source_code error_message
      else apply_rule_based_fixes ua source_code error_message)"

text \<open>One entry of \<open>attempts_history\<close>; the fields are the keys of the dictionary.\<close>

record attempt_entry =
  h_attempt :: int
  h_code :: pystr
  h_success :: bool
  h_result :: pystr

text \<open>
  The compiler collaborator \<open>session\<close> answers a call of the tool \<open>compile_simplicity\<close>
  with the texts of its content items, or the call raises. Its answer may change from one
  call to the next, so it is a function of the number of the attempt, the source and the
  witness.

  The loop \<open>for attempt in range(1, max_attempts + 1)\<close> runs over the list of attempt
  numbers. Leaving the loop (by \<open>break\<close> or at the end of the range) returns
  \<open>False, current_code, attempts_history\<close>. \<open>error_msg.encode\<close> raises when the
  payload's \<open>message\<close> is no text.
\<close>

fun fix_attempts ::
  "(int \<Rightarrow> bool) \<Rightarrow> (pystr \<Rightarrow> pyval option) \<Rightarrow> (int \<Rightarrow> pystr \<Rightarrow> pystr \<Rightarrow> exn + pystr list) \<Rightarrow>
   pystr \<Rightarrow> int \<Rightarrow> bool \<Rightarrow> int list \<Rightarrow> pystr \<Rightarrow> attempt_entry list \<Rightarrow>
   exn + bool \<times> pystr \<times> attempt_entry list" where
  "fix_attempts ua loads session witness_data max_attempts use_llm [] current_code attempts_history =
     Inr (False, current_code, attempts_history)"
| "fix_attempts ua loads session witness_data max_attempts use_llm (attempt # rest) current_code attempts_history =
     (case session attempt current_code witness_data of
        Inl e \<Rightarrow> Inl e
      | Inr content \<Rightarrow>
          (case extract_autofix loads (content_text content) of
             (ok, error_msg) \<Rightarrow>
               (case attempts_history @
                       [\<lparr>h_attempt = attempt, h_code = current_code, h_success = ok,
                         h_result = take 500 (ascii_ignore (content_text content))\<rparr>] of
                  attempts_history \<Rightarrow>
                    if ok then Inr (True, current_code, attempts_history)
                    else (case error_msg of
                            PStr error_msg \<Rightarrow>
                              if attempt \<ge> max_attempts
                              then Inr (False, current_code, attempts_history)
                              else fix_attempts ua loads session witness_data max_attempts use_llm rest
                                     (if use_llm
                                      then fix_code_with_llm ua current_code error_msg attempt
                                      else apply_rule_based_fixes ua current_code error_msg)
                                     attempts_history
                          | _ \<Rightarrow> Inl AttributeError))))"

definition compile_and_fix ::
  "(int \<Rightarrow> bool) \<Rightarrow> (pystr \<Rightarrow> pyval option) \<Rightarrow> (int \<Rightarrow> pystr \<Rightarrow> pystr \<Rightarrow> exn + pystr list) \<Rightarrow>
   pystr \<Rightarrow> pystr \<Rightarrow> int \<Rightarrow> bool \<Rightarrow> exn + bool \<times> pystr \<times> attempt_entry list" where
  "compile_and_fix ua loads session source_code witness_data max_attempts use_llm =
     fix_attempts ua loads session witness_data max_attempts use_llm [1..max_attempts] source_code []"

section \<open>Delegated Fix Engine (SimplicityFixAgent.analyze_and_fix)\<close>

text \<open>
  The agent holds the client of the reasoning service, or \<open>None\<close> without the package or
  the key. The prompt is a fixed text around \<open>error_message\<close> and \<open>source_code\<close>, so the
  service is a function of these two; its answers may differ from call to call, which the
  number of the attempt tells apart. It answers with the texts of its content blocks, or
  the call (or the access to the first text) raises.
\<close>

record agent =
  client :: "(int \<Rightarrow> pyval \<Rightarrow> pyval \<Rightarrow> exn + pystr list) option"

text \<open>
  The fallback fixer on what the controller may hand over: on anything but a text the
  membership test or \<open>re.sub\<close> raises \<open>TypeError\<close>.
\<close>

definition agent_rule_fix :: "(int \<Rightarrow> bool) \<Rightarrow> pyval \<Rightarrow> pyval \<Rightarrow> exn + pystr" where
  "agent_rule_fix ua source_code error_message =
     (case source_code of
        PStr s \<Rightarrow> Inr (agent_apply_rule_based_fixes ua s error_message)
      | _ \<Rightarrow> Inl TypeError)"

text \<open>The text between the code fences of the answer, when it has them.\<close>

definition unfence :: "pystr \<Rightarrow> pystr" where
  "unfence response_text =
     (if contains (py ''```json'') response_text
      then (let json_start = find response_text (py ''```json'') + 7;
                json_end = find_from response_text (py ''```'') json_start
            in strip (slice response_text json_start json_end))
      else if contains (py ''```'') response_text
      then (let json_start = find response_text (py ''```'') + 3;
                json_end = find_from response_text (py ''```'') json_start
            in strip (slice response_text json_start json_end))
      else response_text)"

text \<open>
  The two \<open>print\<close> lines behind \<open>json.loads\<close>. The first evaluates
  \<open>result.get('explanation', 'N/A')[:150]\<close>: \<open>get\<close> needs a dictionary, the slice a text
  or a list (on a dictionary it raises \<open>TypeError\<close>, from Python 3.12 on
  \<open>KeyError\<close>). The second formats \<open>result.get('confidence', 0.0)\<close> as a percentage,
  which takes a number; a whole number is turned into a float first, and that overflows
  from \<open>2^1024 - 2^970\<close> on.
\<close>

definition explanation_preview :: "(pystr \<times> pyval) list \<Rightarrow> exn option" where
  "explanation_preview d =
     (case (case map_of d (py ''explanation'') of None \<Rightarrow> PStr (py ''N/A'') | Some v \<Rightarrow> v) of
        PStr _ \<Rightarrow> None
      | PList _ \<Rightarrow> None
      | _ \<Rightarrow> Some TypeError)"

definition confidence_percent :: "(pystr \<times> pyval) list \<Rightarrow> exn option" where
  "confidence_percent d =
     (case (case map_of d (py ''confidence'') of None \<Rightarrow> PFloat 0 | Some v \<Rightarrow> v) of
        PFloat _ \<Rightarrow> None
      | PBool _ \<Rightarrow> None
      | PInt n \<Rightarrow> if \<bar>n\<bar> \<ge> 2 ^ 1024 - 2 ^ 970 then Some OverflowError else None
      | PStr _ \<Rightarrow> Some ValueError
      | _ \<Rightarrow> Some TypeError)"

definition print_analysis :: "pyval \<Rightarrow> exn option" where
  "print_analysis result =
     (case result of
        PDict d \<Rightarrow>
          (case explanation_preview d of
             Some e \<Rightarrow> Some e
           | None \<Rightarrow> confidence_percent d)
      | _ \<Rightarrow> Some AttributeError)"

text \<open>
  The body of the \<open>try\<close> block: the call of the service, \<open>response.content[0].text\<close>,
  the extraction of the JSON text, \<open>json.loads\<close>, the two prints, \<open>return result\<close>.
\<close>

definition ask_service ::
  "(pystr \<Rightarrow> pyval option) \<Rightarrow> (int \<Rightarrow> pyval \<Rightarrow> pyval \<Rightarrow> exn + pystr list) \<Rightarrow>
   pyval \<Rightarrow> pyval \<Rightarrow> int \<Rightarrow> exn + pyval" where
  "ask_service loads create source_code error_message attempt =
     (case create attempt source_code error_message of
        Inl e \<Rightarrow> Inl e
      | Inr [] \<Rightarrow> Inl IndexError
      | Inr (response_text # _) \<Rightarrow>
          (case loads (unfence response_text) of
             None \<Rightarrow> Inl JSONDecodeError
           | Some result \<Rightarrow>
               (case print_analysis result of
                  Some e \<Rightarrow> Inl e
                | None \<Rightarrow> Inr result)))"

text \<open>
  The dictionary that the method builds when it falls back to the rules. \<open>exn_text\<close> is
  \<open>str(e)\<close>, the text of an exception, which is the interpreter's and the libraries'.
\<close>

definition fallback_result :: "pystr \<Rightarrow> pystr \<Rightarrow> real \<Rightarrow> pyval" where
  "fallback_result fixed explanation confidence =
     PDict [(py ''fixed_code'', PStr fixed),
            (py ''explanation'', PStr explanation),
            (py ''confidence'', PFloat confidence)]"

definition analyze_and_fix ::
  "(int \<Rightarrow> bool) \<Rightarrow> (pystr \<Rightarrow> pyval option) \<Rightarrow> (exn \<Rightarrow> pystr) \<Rightarrow> agent \<Rightarrow>
   pyval \<Rightarrow> pyval \<Rightarrow> int \<Rightarrow> exn + pyval" where
  "analyze_and_fix ua loads exn_text self source_code error_message attempt =
     (case client self of
        None \<Rightarrow>
          (case agent_rule_fix ua source_code error_message of
             Inl e \<Rightarrow> Inl e
           | Inr fixed \<Rightarrow>
               Inr (fallback_result fixed (py ''Rule-based fix applied (no LLM available)'') 0.5))
      | Some create \<Rightarrow>
          (case ask_service loads create source_code error_message attempt of
             Inr result \<Rightarrow> Inr result
           | Inl e \<Rightarrow>
               if is_Exception e
               then (case agent_rule_fix ua source_code error_message of
                       Inl e' \<Rightarrow> Inl e'
                     | Inr fixed \<Rightarrow>
                         Inr (fallback_result fixed
                                (py ''API error, used rule-based fix: '' @ exn_text e) 0.3))
               else Inl e))"

section \<open>Retry Controller of agent_claude (compile_with_retries)\<close>

text \<open>
  One entry of \<open>history\<close>: the entry of a success has no key \<open>error\<close>. The error and the
  code are whatever the payload and the fix result held.
\<close>

record retry_entry =
  r_attempt :: int
  r_success :: bool
  r_error :: "pyval option"
  r_code :: pyval

text \<open>\<open>v[:n]\<close> on a value: a text or a list can be sliced, nothing else.\<close>

definition py_take :: "nat \<Rightarrow> pyval \<Rightarrow> exn + pyval" where
  "py_take n v =
     (case v of
        PStr s \<Rightarrow> Inr (PStr (take n s))
      | PList xs \<Rightarrow> Inr (PList (take n xs))
      | _ \<Rightarrow> Inl TypeError)"

text \<open>
  The preview \<open>current_code[:400] + "..." if len(current_code) > 400 else current_code\<close>
  of the fixed code: \<open>len\<close> needs a text, a list or a dictionary, and the long form a text.
\<close>

definition preview :: "pyval \<Rightarrow> exn option" where
  "preview current_code =
     (case current_code of
        PStr _ \<Rightarrow> None
      | PList xs \<Rightarrow> if length xs > 400 then Some TypeError else None
      | PDict d \<Rightarrow> if length d > 400 then Some TypeError else None
      | _ \<Rightarrow> Some TypeError)"

fun retry_attempts ::
  "(int \<Rightarrow> bool) \<Rightarrow> (pystr \<Rightarrow> pyval option) \<Rightarrow> (exn \<Rightarrow> pystr) \<Rightarrow>
   (int \<Rightarrow> pyval \<Rightarrow> pystr \<Rightarrow> exn + pystr list) \<Rightarrow> agent \<Rightarrow> pystr \<Rightarrow> int \<Rightarrow>
   int list \<Rightarrow> pyval \<Rightarrow> retry_entry list \<Rightarrow> exn + bool \<times> pyval \<times> retry_entry list" where
  "retry_attempts ua loads exn_text session self witness_data max_attempts [] current_code history =
     Inr (False, current_code, history)"
| "retry_attempts ua loads exn_text session self witness_data max_attempts (attempt # rest) current_code history =
     (case session attempt current_code witness_data of
        Inl e \<Rightarrow> Inl e
      | Inr content \<Rightarrow>
          (case extract_agent loads (content_text content) of
             (ok, error_msg) \<Rightarrow>
               if ok
               then Inr (True, current_code,
                         history @ [\<lparr>r_attempt = attempt, r_success = True, r_error = None,
                                     r_code = current_code\<rparr>])
               else (case py_take 250 error_msg of
                       Inl e \<Rightarrow> Inl e
                     | Inr _ \<Rightarrow>
                         (case py_take 200 error_msg of
                            Inl e \<Rightarrow> Inl e
                          | Inr excerpt \<Rightarrow>
                              (case history @ [\<lparr>r_attempt = attempt, r_success = False,
                                                 r_error = Some excerpt, r_code = current_code\<rparr>] of
                                 history \<Rightarrow>
                                   if attempt \<ge> max_attempts
                                   then Inr (False, current_code, history)
                                   else (case analyze_and_fix ua loads exn_text self current_code
                                                 error_msg attempt of
                                           Inl e \<Rightarrow> Inl e
                                         | Inr (PDict fix_result) \<Rightarrow>
                                             (case map_of fix_result (py ''fixed_code'') of
                                                None \<Rightarrow> Inl KeyError
                                              | Some current_code \<Rightarrow>
                                                  (case preview current_code of
                                                     Some e \<Rightarrow> Inl e
                                                   | None \<Rightarrow>
                                                       retry_attempts ua loads exn_text session self
                                                         witness_data max_attempts rest current_code history))
                                         | Inr _ \<Rightarrow> Inl TypeError))))))"

definition compile_with_retries ::
  "(int \<Rightarrow> bool) \<Rightarrow> (pystr \<Rightarrow> pyval option) \<Rightarrow> (exn \<Rightarrow> pystr) \<Rightarrow>
   (int \<Rightarrow> pyval \<Rightarrow> pystr \<Rightarrow> exn + pystr list) \<Rightarrow> agent \<Rightarrow> pystr \<Rightarrow> pystr \<Rightarrow> int \<Rightarrow>
   exn + bool \<times> pyval \<times> retry_entry list" where
  "compile_with_retries ua loads exn_text session self source_code witness_data max_attempts =
     retry_attempts ua loads exn_text session self witness_data max_attempts
       [1..max_attempts] (PStr source_code) []"

section \<open>Batch Runner (the two \<open>main\<close> functions)\<close>

text \<open>
  The file system as the batch uses it: \<open>Path(p).read_text()\<close>, which may raise,
  \<open>Path(p).exists()\<close>, and the writing of the fixed code to the sibling file of a source
  file (\<open>None\<close> when the write goes through). The files written are never read again by
  the batch, so no file contents are threaded through.
\<close>

record files =
  read_text :: "pystr \<Rightarrow> exn + pystr"
  exists :: "pystr \<Rightarrow> bool"
  write_fixed :: "pystr \<Rightarrow> pystr \<Rightarrow> exn option"

definition test_files :: "(pystr \<times> pystr \<times> pystr) list" where
  "test_files =
     [(py ''Arithmetic'', py ''examples/arithmetic.simf'', py ''examples/arithmetic.wit''),
      (py ''Scoping'', py ''examples/scoping.simf'', py ''examples/scoping.wit''),
      (py ''Witness Equality'', py ''examples/witness_equality.simf'',
         py ''examples/witness_equality.wit''),
      (py ''Witness Computation'', py ''examples/witness_computation.simf'',
         py ''examples/witness_computation.wit'')]"

text \<open>agent_autofix.test_file_with_agent: one case, from its files to its result.\<close>

definition test_file_with_agent ::
  "(int \<Rightarrow> bool) \<Rightarrow> (pystr \<Rightarrow> pyval option) \<Rightarrow> (int \<Rightarrow> pystr \<Rightarrow> pystr \<Rightarrow> exn + pystr list) \<Rightarrow>
   files \<Rightarrow> pystr \<Rightarrow> pystr \<Rightarrow> pystr \<Rightarrow> int \<Rightarrow> bool \<Rightarrow> exn + bool \<times> attempt_entry list" where
  "test_file_with_agent ua loads session fs name source_file witness_file max_attempts use_llm =
     (case read_text fs source_file of
        Inl e \<Rightarrow> Inl e
      | Inr source_code \<Rightarrow>
          (case (if exists fs witness_file then read_text fs witness_file else Inr []) of
             Inl e \<Rightarrow> Inl e
           | Inr witness_data \<Rightarrow>
               (case compile_and_fix ua loads session source_code witness_data max_attempts use_llm of
                  Inl e \<Rightarrow> Inl e
                | Inr (success, final_code, history) \<Rightarrow>
                    (case (if success then write_fixed fs source_file final_code else None) of
                       Some e \<Rightarrow> Inl e
                     | None \<Rightarrow> Inr (success, history)))))"

text \<open>
  The loop of agent_autofix.main over the cases. \<open>results\<close> and \<open>all_history\<close> are
  dictionaries in insertion order. The loop has no exception handler: what a case raises
  ends the loop, and the function. The value of the loop is the state of the two
  dictionaries when it ends, with the exception that ended it, if any. The compiler
  collaborator is told the name of the case it is asked in.
\<close>

fun run_test_files ::
  "(int \<Rightarrow> bool) \<Rightarrow> (pystr \<Rightarrow> pyval option) \<Rightarrow> (pystr \<Rightarrow> int \<Rightarrow> pystr \<Rightarrow> pystr \<Rightarrow> exn + pystr list) \<Rightarrow>
   files \<Rightarrow> int \<Rightarrow> bool \<Rightarrow> (pystr \<times> pystr \<times> pystr) list \<Rightarrow>
   (pystr \<times> bool) list \<Rightarrow> (pystr \<times> attempt_entry list) list \<Rightarrow>
   ((pystr \<times> bool) list \<times> (pystr \<times> attempt_entry list) list) \<times> exn option" where
  "run_test_files ua loads session fs max_attempts use_llm [] results all_history =
     ((results, all_history), None)"
| "run_test_files ua loads session fs max_attempts use_llm ((name, source, witness) # rest)
     results all_history =
     (case test_file_with_agent ua loads (session name) fs name source witness max_attempts use_llm of
        Inl e \<Rightarrow> ((results, all_history), Some e)
      | Inr (success, history) \<Rightarrow>
          run_test_files ua loads session fs max_attempts use_llm rest
            (AList.update name success results) (AList.update name history all_history))"

text \<open>
  The exit code behind the loop: \<open>fixed = sum(results.values())\<close>, \<open>total = len(results)\<close>.
\<close>

definition exit_code :: "(pystr \<times> bool) list \<Rightarrow> int" where
  "exit_code results =
     (let total = length results; fixed = length (filter snd results)
      in if fixed = total then 0 else 1)"

definition main_autofix ::
  "(int \<Rightarrow> bool) \<Rightarrow> (pystr \<Rightarrow> pyval option) \<Rightarrow> (pystr \<Rightarrow> int \<Rightarrow> pystr \<Rightarrow> pystr \<Rightarrow> exn + pystr list) \<Rightarrow>
   files \<Rightarrow> int \<Rightarrow> bool \<Rightarrow> exn + int" where
  "main_autofix ua loads session fs max_attempts use_llm =
     (case run_test_files ua loads session fs max_attempts use_llm test_files [] [] of
        (_, Some e) \<Rightarrow> Inl e
      | ((results, _), None) \<Rightarrow> Inr (exit_code results))"

text \<open>
  The body of the loop of agent_claude.main, for one case: the files are read in the
  loop itself (the witness without a test for its existence), the result is entered
  before the fixed code is written, and only a text can be written. Its value is the
  dictionary \<open>results\<close> behind the body, with the exception that ended the body, if any.
\<close>

definition process_file ::
  "(int \<Rightarrow> bool) \<Rightarrow> (pystr \<Rightarrow> pyval option) \<Rightarrow> (exn \<Rightarrow> pystr) \<Rightarrow>
   (int \<Rightarrow> pyval \<Rightarrow> pystr \<Rightarrow> exn + pystr list) \<Rightarrow> agent \<Rightarrow> files \<Rightarrow> int \<Rightarrow>
   pystr \<Rightarrow> pystr \<Rightarrow> pystr \<Rightarrow> (pystr \<times> bool) list \<Rightarrow> (pystr \<times> bool) list \<times> exn option" where
  "process_file ua loads exn_text session self fs max_attempts name source_file witness_file results =
     (case read_text fs source_file of
        Inl e \<Rightarrow> (results, Some e)
      | Inr source_code \<Rightarrow>
          (case read_text fs witness_file of
             Inl e \<Rightarrow> (results, Some e)
           | Inr witness_data \<Rightarrow>
               (case compile_with_retries ua loads exn_text session self source_code
                       witness_data max_attempts of
                  Inl e \<Rightarrow> (results, Some e)
                | Inr (success, fixed_code, history) \<Rightarrow>
                    (AList.update name success results,
                     if success
                     then (case fixed_code of
                             PStr text \<Rightarrow> write_fixed fs source_file text
                           | _ \<Rightarrow> Some TypeError)
                     else None))))"

text \<open>
  The loop itself has no exception handler either: what the body raises ends the loop.
\<close>

fun run_agent_files ::
  "(int \<Rightarrow> bool) \<Rightarrow> (pystr \<Rightarrow> pyval option) \<Rightarrow> (exn \<Rightarrow> pystr) \<Rightarrow>
   (pystr \<Rightarrow> int \<Rightarrow> pyval \<Rightarrow> pystr \<Rightarrow> exn + pystr list) \<Rightarrow> agent \<Rightarrow> files \<Rightarrow> int \<Rightarrow>
   (pystr \<times> pystr \<times> pystr) list \<Rightarrow> (pystr \<times> bool) list \<Rightarrow> (pystr \<times> bool) list \<times> exn option" where
  "run_agent_files ua loads exn_text session self fs max_attempts [] results = (results, None)"
| "run_agent_files ua loads exn_text session self fs max_attempts
     ((name, source_file, witness_file) # rest) results =
     (case process_file ua loads exn_text (session name) self fs max_attempts
             name source_file witness_file results of
        (results, Some e) \<Rightarrow> (results, Some e)
      | (results, None) \<Rightarrow>
          run_agent_files ua loads exn_text session self fs max_attempts rest results)"

text \<open>The summary divides by \<open>total\<close> before the exit code is returned.\<close>

definition main_agent ::
  "(int \<Rightarrow> bool) \<Rightarrow> (pystr \<Rightarrow> pyval option) \<Rightarrow> (exn \<Rightarrow> pystr) \<Rightarrow>
   (pystr \<Rightarrow> int \<Rightarrow> pyval \<Rightarrow> pystr \<Rightarrow> exn + pystr list) \<Rightarrow> agent \<Rightarrow> files \<Rightarrow> int \<Rightarrow> exn + int" where
  "main_agent ua loads exn_text session self fs max_attempts =
     (case run_agent_files ua loads exn_text session self fs max_attempts test_files [] of
        (_, Some e) \<Rightarrow> Inl e
      | (results, None) \<Rightarrow>
          if length results = 0 then Inl ZeroDivisionError else Inr (exit_code results))"

section \<open>Auxiliary notions\<close>

text \<open>The text \<open>x\<close> has the first line \<open>h\<close>.\<close>

definition first_line :: "pystr \<Rightarrow> pystr \<Rightarrow> bool" where
  "first_line h x \<longleftrightarrow> x = h \<or> (\<exists>r. x = h @ 10 # r)"


section \<open>Example collaborators\<close>

text \<open>
  A compiler that rejects what it is sent first and accepts what it is sent second, and
  one that rejects everything. Neither answer carries a payload.
\<close>

definition second_try_session :: "int \<Rightarrow> 'src \<Rightarrow> pystr \<Rightarrow> exn + pystr list" where
  "second_try_session attempt source_code witness_data =
     (if attempt = 2 then Inr [success_marker_agent @ py ''\<newline>\<newline>Output:\<newline>{}'']
      else Inr [py ''Compilation failed: expected program''])"

definition rejecting_session :: "int \<Rightarrow> 'src \<Rightarrow> pystr \<Rightarrow> exn + pystr list" where
  "rejecting_session attempt source_code witness_data =
     Inr [py ''Compilation failed: expected program'']"

text \<open>\<open>json.loads\<close> on texts that are no JSON documents: it raises.\<close>

definition no_json :: "pystr \<Rightarrow> pyval option" where
  "no_json s = None"

text \<open>The alphanumeric property on texts without letters or digits beyond ASCII.\<close>

definition no_alnum :: "int \<Rightarrow> bool" where
  "no_alnum c = False"

text \<open>An agent without a client, and the text of an exception left empty.\<close>

definition offline_agent :: agent where
  "offline_agent = \<lparr>client = None\<rparr>"

definition no_text :: "exn \<Rightarrow> pystr" where
  "no_text e = []"

text \<open>An agent whose service cannot be reached: every call raises a connection error.\<close>

definition unreachable_agent :: agent where
  "unreachable_agent = \<lparr>client = Some (\<lambda>attempt source_code error_message. Inl (External 111))\<rparr>"

text \<open>
  A file system in which the first source file of the batch is missing (reading it raises
  the error number 2) and every other file holds the text \<open>1 + 1\<close>.
\<close>

definition first_file_missing :: files where
  "first_file_missing =
     \<lparr>read_text = (\<lambda>p. if p = py ''examples/arithmetic.simf'' then Inl (External 2)
                        else Inr (py ''1 + 1'')),
      exists = (\<lambda>p. p \<noteq> py ''examples/arithmetic.simf''),
      write_fixed = (\<lambda>p text. None)\<rparr>"

text \<open>A compiler that accepts whatever it is sent, in every case of the batch.\<close>

definition accepting_session :: "pystr \<Rightarrow> int \<Rightarrow> 'src \<Rightarrow> pystr \<Rightarrow> exn + pystr list" where
  "accepting_session name attempt source_code witness_data =
     Inr [success_marker_agent @ py ''\<newline>\<newline>Output:\<newline>{}'']"



text \<open>
  A file system in which the second source file of the batch is missing and every other
  file holds the text \<open>1 + 1\<close>.
\<close>

definition second_file_missing :: files where
  "second_file_missing =
     \<lparr>read_text = (\<lambda>p. if p = py ''examples/scoping.simf'' then Inl (External 2)
                        else Inr (py ''1 + 1'')),
      exists = (\<lambda>p. p \<noteq> py ''examples/scoping.simf''),
      write_fixed = (\<lambda>p text. None)\<rparr>"


section \<open>The retry loops\<close>

text \<open>
  One pass through the body of the loop of \<open>compile_and_fix\<close> that does not raise: the
  compiler answered, one entry was appended, and the pass ended the run with a success,
  ended it at the last permitted attempt, or handed a repaired source to the next pass.
\<close>

lemma fix_attempts_step:
  assumes "fix_attempts ua loads session w m use_llm (a # atts) cur hist = Inr (ok, fin, h)"
  obtains content e where
    "session a cur w = Inr content"
    "e = \<lparr>h_attempt = a, h_code = cur,
          h_success = succeeded_autofix (content_text content),
          h_result = take 500 (ascii_ignore (content_text content))\<rparr>"
    "(h_success e \<and> ok \<and> fin = cur \<and> h = hist @ [e]) \<or>
     (\<not> h_success e \<and> m \<le> a \<and> \<not> ok \<and> fin = cur \<and> h = hist @ [e]) \<or>
     (\<not> h_success e \<and> a < m \<and>
      (\<exists>code'. fix_attempts ua loads session w m use_llm atts code' (hist @ [e]) = Inr (ok, fin, h)))"
proof (cases "session a cur w")
  case (Inl x)
  with assms show ?thesis by simp
next
  case (Inr content)
  show ?thesis
    by (rule that[OF Inr refl])
       (use assms Inr in \<open>auto simp: extract_autofix_def succeeded_autofix_def Let_def
           split: pyval.splits if_splits\<close>)
qed

lemma fix_attempts_run:
  "fix_attempts ua loads session w m use_llm atts cur hist = Inr (ok, fin, h) \<Longrightarrow>
   (atts \<noteq> [] \<longrightarrow> m \<le> last atts) \<Longrightarrow>
   \<exists>new. h = hist @ new \<and> length new \<le> length atts \<and> (atts \<noteq> [] \<longrightarrow> new \<noteq> [])
      \<and> map h_attempt new = take (length new) atts
      \<and> (new = [] \<longrightarrow> fin = cur \<and> \<not> ok)
      \<and> (new \<noteq> [] \<longrightarrow> fin = h_code (last new) \<and> ok = h_success (last new))
      \<and> (\<forall>e \<in> set (butlast new). \<not> h_success e)
      \<and> (\<not> ok \<and> length new < length atts \<longrightarrow> m \<le> atts ! (length new - 1))
      \<and> (\<forall>i < length new. \<exists>content. session (atts ! i) (h_code (new ! i)) w = Inr content
             \<and> h_success (new ! i) = succeeded_autofix (content_text content))"
proof (induction atts arbitrary: cur hist)
  case Nil
  then show ?case by simp
next
  case (Cons a atts)
  from Cons.prems(1) obtain content e where
    s: "session a cur w = Inr content" and
    e: "e = \<lparr>h_attempt = a, h_code = cur,
          h_success = succeeded_autofix (content_text content),
          h_result = take 500 (ascii_ignore (content_text content))\<rparr>" and
    c: "(h_success e \<and> ok \<and> fin = cur \<and> h = hist @ [e]) \<or>
     (\<not> h_success e \<and> m \<le> a \<and> \<not> ok \<and> fin = cur \<and> h = hist @ [e]) \<or>
     (\<not> h_success e \<and> a < m \<and>
      (\<exists>code'. fix_attempts ua loads session w m use_llm atts code' (hist @ [e]) = Inr (ok, fin, h)))"
    by (rule fix_attempts_step)
  have ec: "h_code e = cur" "h_attempt e = a" using e by simp_all
  have es: "h_success e = succeeded_autofix (content_text content)" using e by simp
  from c consider
    (stop) "h = hist @ [e]" "fin = cur" "ok = h_success e" "h_success e \<or> m \<le> a"
  | (go) code' where "\<not> h_success e" "a < m"
      "fix_attempts ua loads session w m use_llm atts code' (hist @ [e]) = Inr (ok, fin, h)"
    by auto
  then show ?case
  proof cases
    case stop
    show ?thesis
      by (rule exI[of _ "[e]"]) (use stop ec es s in auto)
  next
    case go
    have atts: "atts \<noteq> []" "atts \<noteq> [] \<longrightarrow> m \<le> last atts"
      using Cons.prems(2) go(2) by (auto split: if_splits)
    from Cons.IH[OF go(3) atts(2)] obtain new where n:
      "h = (hist @ [e]) @ new" "length new \<le> length atts" "atts \<noteq> [] \<longrightarrow> new \<noteq> []"
      "map h_attempt new = take (length new) atts"
      "new = [] \<longrightarrow> fin = code' \<and> \<not> ok"
      "new \<noteq> [] \<longrightarrow> fin = h_code (last new) \<and> ok = h_success (last new)"
      "\<forall>e \<in> set (butlast new). \<not> h_success e"
      "\<not> ok \<and> length new < length atts \<longrightarrow> m \<le> atts ! (length new - 1)"
      "\<forall>i < length new. \<exists>content. session (atts ! i) (h_code (new ! i)) w = Inr content
             \<and> h_success (new ! i) = succeeded_autofix (content_text content)"
      by blast
    show ?thesis
    proof (rule exI[of _ "e # new"], intro conjI)
      show "h = hist @ e # new" using n(1) by simp
      show "length (e # new) \<le> length (a # atts)" using n(2) by simp
      show "a # atts \<noteq> [] \<longrightarrow> e # new \<noteq> []" by simp
      show "map h_attempt (e # new) = take (length (e # new)) (a # atts)" using n(4) ec by simp
      show "e # new = [] \<longrightarrow> fin = cur \<and> \<not> ok" by simp
      show "e # new \<noteq> [] \<longrightarrow> fin = h_code (last (e # new)) \<and> ok = h_success (last (e # new))"
        using n(3,6) atts(1) by simp
      show "\<forall>e \<in> set (butlast (e # new)). \<not> h_success e" using n(7) go(1) by (auto dest: in_set_butlastD)
      show "\<not> ok \<and> length (e # new) < length (a # atts) \<longrightarrow> m \<le> (a # atts) ! (length (e # new) - 1)"
        using n(3,8) atts(1) by (cases new) auto
      show "\<forall>i < length (e # new). \<exists>content. session ((a # atts) ! i) (h_code ((e # new) ! i)) w = Inr content
             \<and> h_success ((e # new) ! i) = succeeded_autofix (content_text content)"
        using n(9) s ec es by (auto simp: nth_Cons split: nat.splits)
    qed
  qed
qed


lemma retry_attempts_step:
  assumes "retry_attempts ua loads exn_text session self w m (a # atts) cur hist = Inr (ok, fin, h)"
  obtains content e where
    "session a cur w = Inr content"
    "r_attempt e = a" "r_code e = cur"
    "r_success e = contains success_marker_agent (content_text content)"
    "(r_success e \<and> ok \<and> fin = cur \<and> h = hist @ [e]) \<or>
     (\<not> r_success e \<and> m \<le> a \<and> \<not> ok \<and> fin = cur \<and> h = hist @ [e]) \<or>
     (\<not> r_success e \<and> a < m \<and>
      (\<exists>code'. retry_attempts ua loads exn_text session self w m atts code' (hist @ [e]) = Inr (ok, fin, h)))"
proof (cases "session a cur w")
  case (Inl x)
  with assms show ?thesis by simp
next
  case (Inr content)
  show ?thesis
  proof (cases "contains success_marker_agent (content_text content)")
    case True
    show ?thesis
      by (rule that[OF Inr, of "\<lparr>r_attempt = a, r_success = True, r_error = None, r_code = cur\<rparr>"])
         (use assms Inr True in \<open>auto simp: extract_agent_def\<close>)
  next
    case False
    with assms Inr obtain excerpt where
      x: "py_take 200 (extract_error (py ''message\":'') loads (content_text content)) = Inr excerpt"
      by (auto simp: extract_agent_def split: sum.splits)
    show ?thesis
      by (rule that[OF Inr, of "\<lparr>r_attempt = a, r_success = False, r_error = Some excerpt, r_code = cur\<rparr>"])
         (use assms Inr False x in \<open>auto simp: extract_agent_def split: sum.splits pyval.splits option.splits if_splits\<close>)
  qed
qed

lemma retry_attempts_run:
  "retry_attempts ua loads exn_text session self w m atts cur hist = Inr (ok, fin, h) \<Longrightarrow>
   (atts \<noteq> [] \<longrightarrow> m \<le> last atts) \<Longrightarrow>
   \<exists>new. h = hist @ new \<and> length new \<le> length atts \<and> (atts \<noteq> [] \<longrightarrow> new \<noteq> [])
      \<and> map r_attempt new = take (length new) atts
      \<and> (new = [] \<longrightarrow> fin = cur \<and> \<not> ok)
      \<and> (new \<noteq> [] \<longrightarrow> fin = r_code (last new) \<and> ok = r_success (last new))
      \<and> (\<forall>e \<in> set (butlast new). \<not> r_success e)
      \<and> (\<not> ok \<and> length new < length atts \<longrightarrow> m \<le> atts ! (length new - 1))
      \<and> (\<forall>i < length new. \<exists>content. session (atts ! i) (r_code (new ! i)) w = Inr content
             \<and> r_success (new ! i) = contains success_marker_agent (content_text content))"
proof (induction atts arbitrary: cur hist)
  case Nil
  then show ?case by simp
next
  case (Cons a atts)
  from Cons.prems(1) obtain content e where
    s: "session a cur w = Inr content" and
    ec: "r_attempt e = a" "r_code e = cur" and
    es: "r_success e = contains success_marker_agent (content_text content)" and
    c: "(r_success e \<and> ok \<and> fin = cur \<and> h = hist @ [e]) \<or>
     (\<not> r_success e \<and> m \<le> a \<and> \<not> ok \<and> fin = cur \<and> h = hist @ [e]) \<or>
     (\<not> r_success e \<and> a < m \<and>
      (\<exists>code'. retry_attempts ua loads exn_text session self w m atts code' (hist @ [e]) = Inr (ok, fin, h)))"
    by (rule retry_attempts_step)
  from c consider
    (stop) "h = hist @ [e]" "fin = cur" "ok = r_success e" "r_success e \<or> m \<le> a"
  | (go) code' where "\<not> r_success e" "a < m"
      "retry_attempts ua loads exn_text session self w m atts code' (hist @ [e]) = Inr (ok, fin, h)"
    by auto
  then show ?case
  proof cases
    case stop
    show ?thesis
      by (rule exI[of _ "[e]"]) (use stop ec es s in auto)
  next
    case go
    have atts: "atts \<noteq> []" "atts \<noteq> [] \<longrightarrow> m \<le> last atts"
      using Cons.prems(2) go(2) by (auto split: if_splits)
    from Cons.IH[OF go(3) atts(2)] obtain new where n:
      "h = (hist @ [e]) @ new" "length new \<le> length atts" "atts \<noteq> [] \<longrightarrow> new \<noteq> []"
      "map r_attempt new = take (length new) atts"
      "new = [] \<longrightarrow> fin = code' \<and> \<not> ok"
      "new \<noteq> [] \<longrightarrow> fin = r_code (last new) \<and> ok = r_success (last new)"
      "\<forall>e \<in> set (butlast new). \<not> r_success e"
      "\<not> ok \<and> length new < length atts \<longrightarrow> m \<le> atts ! (length new - 1)"
      "\<forall>i < length new. \<exists>content. session (atts ! i) (r_code (new ! i)) w = Inr content
             \<and> r_success (new ! i) = contains success_marker_agent (content_text content)"
      by blast
    show ?thesis
    proof (rule exI[of _ "e # new"], intro conjI)
      show "h = hist @ e # new" using n(1) by simp
      show "length (e # new) \<le> length (a # atts)" using n(2) by simp
      show "a # atts \<noteq> [] \<longrightarrow> e # new \<noteq> []" by simp
      show "map r_attempt (e # new) = take (length (e # new)) (a # atts)" using n(4) ec by simp
      show "e # new = [] \<longrightarrow> fin = cur \<and> \<not> ok" by simp
      show "e # new \<noteq> [] \<longrightarrow> fin = r_code (last (e # new)) \<and> ok = r_success (last (e # new))"
        using n(3,6) atts(1) by simp
      show "\<forall>e \<in> set (butlast (e # new)). \<not> r_success e" using n(7) go(1) by (auto dest: in_set_butlastD)
      show "\<not> ok \<and> length (e # new) < length (a # atts) \<longrightarrow> m \<le> (a # atts) ! (length (e # new) - 1)"
        using n(3,8) atts(1) by (cases new) auto
      show "\<forall>i < length (e # new). \<exists>content. session ((a # atts) ! i) (r_code ((e # new) ! i)) w = Inr content
             \<and> r_success ((e # new) ! i) = contains success_marker_agent (content_text content)"
        using n(9) s ec es by (auto simp: nth_Cons split: nat.splits)
    qed
  qed
qed

lemma upto_reaches_max: "[1..m] \<noteq> [] \<longrightarrow> m \<le> last [1..m]"
  by (simp add: upto_rec2)

text \<open>
  The runs of the two controllers, over the attempt numbers 1 to \<open>max_attempts\<close>: what a
  returned history says about the run.
\<close>

lemma compile_and_fix_run:
  assumes "compile_and_fix ua loads session src w m use_llm = Inr (ok, fin, h)"
  shows "length h \<le> nat m" "1 \<le> m \<Longrightarrow> h \<noteq> []"
    "i < length h \<Longrightarrow> h_attempt (h ! i) = int i + 1"
    "h = [] \<Longrightarrow> fin = src \<and> \<not> ok"
    "h \<noteq> [] \<Longrightarrow> fin = h_code (last h) \<and> ok = h_success (last h)"
    "e \<in> set (butlast h) \<Longrightarrow> \<not> h_success e"
    "\<not> ok \<Longrightarrow> length h = nat m"
    "i < length h \<Longrightarrow> \<exists>content. session (int i + 1) (h_code (h ! i)) w = Inr content
             \<and> h_success (h ! i) = succeeded_autofix (content_text content)"
proof -
  from assms have run: "fix_attempts ua loads session w m use_llm [1..m] src [] = Inr (ok, fin, h)"
    by (simp add: compile_and_fix_def)
  from fix_attempts_run[OF run upto_reaches_max] have n:
      "length h \<le> length [1..m]" "[1..m] \<noteq> [] \<longrightarrow> h \<noteq> []"
      "map h_attempt h = take (length h) [1..m]"
      "h = [] \<longrightarrow> fin = src \<and> \<not> ok"
      "h \<noteq> [] \<longrightarrow> fin = h_code (last h) \<and> ok = h_success (last h)"
      "\<forall>e \<in> set (butlast h). \<not> h_success e"
      "\<not> ok \<and> length h < length [1..m] \<longrightarrow> m \<le> [1..m] ! (length h - 1)"
      "\<forall>i < length h. \<exists>content. session ([1..m] ! i) (h_code (h ! i)) w = Inr content
             \<and> h_success (h ! i) = succeeded_autofix (content_text content)"
    by auto
  show len: "length h \<le> nat m" using n(1) by simp
  show ne: "1 \<le> m \<Longrightarrow> h \<noteq> []" using n(2) by simp
  have nth: "[1..m] ! i = int i + 1" if "i < length h" for i
    using that len by simp
  show "h_attempt (h ! i) = int i + 1" if "i < length h"
  proof -
    have "h_attempt (h ! i) = map h_attempt h ! i" using that by simp
    also have "\<dots> = [1..m] ! i" using that n(3) by simp
    finally show ?thesis using nth[OF that] by simp
  qed
  show "h = [] \<Longrightarrow> fin = src \<and> \<not> ok" using n(4) by simp
  show "h \<noteq> [] \<Longrightarrow> fin = h_code (last h) \<and> ok = h_success (last h)" using n(5) by simp
  show "e \<in> set (butlast h) \<Longrightarrow> \<not> h_success e" using n(6) by simp
  show "length h = nat m" if "\<not> ok"
  proof (rule ccontr)
    assume "length h \<noteq> nat m"
    with len have lt: "length h < nat m" by simp
    then have "1 \<le> m" by simp
    with ne have "h \<noteq> []" by simp
    then have pos: "length h - 1 < length h" by (cases h) auto
    from lt that n(7) have "m \<le> [1..m] ! (length h - 1)" by simp
    with nth[OF pos] pos lt show False by simp
  qed
  show "\<exists>content. session (int i + 1) (h_code (h ! i)) w = Inr content
             \<and> h_success (h ! i) = succeeded_autofix (content_text content)" if "i < length h"
    using n(8) that nth[OF that] by auto
qed

lemma compile_with_retries_run:
  assumes "compile_with_retries ua loads exn_text session self src w m = Inr (ok, fin, h)"
  shows "length h \<le> nat m" "1 \<le> m \<Longrightarrow> h \<noteq> []"
    "i < length h \<Longrightarrow> r_attempt (h ! i) = int i + 1"
    "h = [] \<Longrightarrow> fin = PStr src \<and> \<not> ok"
    "h \<noteq> [] \<Longrightarrow> fin = r_code (last h) \<and> ok = r_success (last h)"
    "e \<in> set (butlast h) \<Longrightarrow> \<not> r_success e"
    "\<not> ok \<Longrightarrow> length h = nat m"
    "i < length h \<Longrightarrow> \<exists>content. session (int i + 1) (r_code (h ! i)) w = Inr content
             \<and> r_success (h ! i) = contains success_marker_agent (content_text content)"
proof -
  from assms have run:
    "retry_attempts ua loads exn_text session self w m [1..m] (PStr src) [] = Inr (ok, fin, h)"
    by (simp add: compile_with_retries_def)
  from retry_attempts_run[OF run upto_reaches_max] have n:
      "length h \<le> length [1..m]" "[1..m] \<noteq> [] \<longrightarrow> h \<noteq> []"
      "map r_attempt h = take (length h) [1..m]"
      "h = [] \<longrightarrow> fin = PStr src \<and> \<not> ok"
      "h \<noteq> [] \<longrightarrow> fin = r_code (last h) \<and> ok = r_success (last h)"
      "\<forall>e \<in> set (butlast h). \<not> r_success e"
      "\<not> ok \<and> length h < length [1..m] \<longrightarrow> m \<le> [1..m] ! (length h - 1)"
      "\<forall>i < length h. \<exists>content. session ([1..m] ! i) (r_code (h ! i)) w = Inr content
             \<and> r_success (h ! i) = contains success_marker_agent (content_text content)"
    by auto
  show len: "length h \<le> nat m" using n(1) by simp
  show ne: "1 \<le> m \<Longrightarrow> h \<noteq> []" using n(2) by simp
  have nth: "[1..m] ! i = int i + 1" if "i < length h" for i
    using that len by simp
  show "r_attempt (h ! i) = int i + 1" if "i < length h"
  proof -
    have "r_attempt (h ! i) = map r_attempt h ! i" using that by simp
    also have "\<dots> = [1..m] ! i" using that n(3) by simp
    finally show ?thesis using nth[OF that] by simp
  qed
  show "h = [] \<Longrightarrow> fin = PStr src \<and> \<not> ok" using n(4) by simp
  show "h \<noteq> [] \<Longrightarrow> fin = r_code (last h) \<and> ok = r_success (last h)" using n(5) by simp
  show "e \<in> set (butlast h) \<Longrightarrow> \<not> r_success e" using n(6) by simp
  show "length h = nat m" if "\<not> ok"
  proof (rule ccontr)
    assume "length h \<noteq> nat m"
    with len have lt: "length h < nat m" by simp
    then have "1 \<le> m" by simp
    with ne have "h \<noteq> []" by simp
    then have pos: "length h - 1 < length h" by (cases h) auto
    from lt that n(7) have "m \<le> [1..m] ! (length h - 1)" by simp
    with nth[OF pos] pos lt show False by simp
  qed
  show "\<exists>content. session (int i + 1) (r_code (h ! i)) w = Inr content
             \<and> r_success (h ! i) = contains success_marker_agent (content_text content)" if "i < length h"
    using n(8) that nth[OF that] by auto
qed

lemma success_is_last:
  assumes "k < length h" "P (h ! k)" "\<And>e. e \<in> set (butlast h) \<Longrightarrow> \<not> P e"
  shows "length h = Suc k \<and> h ! k = last h"
proof -
  have "\<not> k < length h - 1"
  proof
    assume lt: "k < length h - 1"
    then have "butlast h ! k = h ! k" by (simp add: nth_butlast)
    moreover have "butlast h ! k \<in> set (butlast h)" using lt by simp
    ultimately show False using assms(2,3) by metis
  qed
  with assms(1) have "length h = Suc k" by simp
  moreover from this have "h ! k = last h" by (cases h rule: rev_cases) auto
  ultimately show ?thesis by simp
qed







section \<open>Properties of the Retry Controller\<close>

text \<open>
  Claim C1. In every run of either controller that returns, the entry \<open>k\<close> of the history
  (counted from 0) is the record of attempt \<open>k + 1\<close>: the source it holds was submitted to
  the compiler at that attempt, the compiler answered, and the entry's success flag says
  whether the answer carried the success marker. If the submission at that attempt
  succeeded, the entry is the last one (no further attempt was made, so no repair and no
  resubmission), the run reports success, and the final source it reports is the source
  submitted at that attempt.
\<close>

theorem success_ends_the_run:
  "(compile_and_fix ua loads session src w m use_llm = Inr (ok, fin, h) \<longrightarrow> k < length h \<longrightarrow>
      h_attempt (h ! k) = int k + 1
      \<and> (\<exists>content. session (int k + 1) (h_code (h ! k)) w = Inr content
            \<and> h_success (h ! k) = succeeded_autofix (content_text content))
      \<and> (h_success (h ! k) \<longrightarrow> length h = Suc k \<and> ok \<and> fin = h_code (h ! k)))
   \<and> (compile_with_retries ua loads exn_text session' self src w m = Inr (ok', fin', h') \<longrightarrow>
      k < length h' \<longrightarrow>
      r_attempt (h' ! k) = int k + 1
      \<and> (\<exists>content. session' (int k + 1) (r_code (h' ! k)) w = Inr content
            \<and> r_success (h' ! k) = contains success_marker_agent (content_text content))
      \<and> (r_success (h' ! k) \<longrightarrow> length h' = Suc k \<and> ok' \<and> fin' = r_code (h' ! k)))"
proof (intro conjI impI)
  assume run: "compile_and_fix ua loads session src w m use_llm = Inr (ok, fin, h)"
    and k: "k < length h"
  show "h_attempt (h ! k) = int k + 1"
    by (rule compile_and_fix_run(3)[OF run k])
  show "\<exists>content. session (int k + 1) (h_code (h ! k)) w = Inr content
            \<and> h_success (h ! k) = succeeded_autofix (content_text content)"
    by (rule compile_and_fix_run(8)[OF run k])
  assume s: "h_success (h ! k)"
  have last: "length h = Suc k \<and> h ! k = last h"
    using k s compile_and_fix_run(6)[OF run] by (rule success_is_last)
  then have "h \<noteq> []" by auto
  from compile_and_fix_run(5)[OF run this] last s
  show "length h = Suc k" "ok" "fin = h_code (h ! k)" by simp_all
next
  assume run: "compile_with_retries ua loads exn_text session' self src w m = Inr (ok', fin', h')"
    and k: "k < length h'"
  show "r_attempt (h' ! k) = int k + 1"
    by (rule compile_with_retries_run(3)[OF run k])
  show "\<exists>content. session' (int k + 1) (r_code (h' ! k)) w = Inr content
            \<and> r_success (h' ! k) = contains success_marker_agent (content_text content)"
    by (rule compile_with_retries_run(8)[OF run k])
  assume s: "r_success (h' ! k)"
  have last: "length h' = Suc k \<and> h' ! k = last h'"
    using k s compile_with_retries_run(6)[OF run] by (rule success_is_last)
  then have "h' \<noteq> []" by auto
  from compile_with_retries_run(5)[OF run this] last s
  show "length h' = Suc k" "ok'" "fin' = r_code (h' ! k)" by simp_all
qed

theorem success_ends_the_run_witness:
  "compile_and_fix no_alnum no_json second_try_session (py ''1 + 1'') [] 5 False =
     Inr (True, py ''fn main() -> () {\<newline>1 + 1\<newline>()\<newline>}\<newline>'',
          [\<lparr>h_attempt = 1, h_code = py ''1 + 1'', h_success = False,
             h_result = py ''Compilation failed: expected program''\<rparr>,
           \<lparr>h_attempt = 2, h_code = py ''fn main() -> () {\<newline>1 + 1\<newline>()\<newline>}\<newline>'',
             h_success = True, h_result = py '' Compilation successful!\<newline>\<newline>Output:\<newline>{}''\<rparr>])
   \<and> second_try_session 2 (py ''fn main() -> () {\<newline>1 + 1\<newline>()\<newline>}\<newline>'') [] =
        Inr [success_marker_agent @ py ''\<newline>\<newline>Output:\<newline>{}'']
   \<and> compile_with_retries no_alnum no_json no_text second_try_session offline_agent
        (py ''assert!(x);'') [] 5 =
     Inr (True, PStr (py ''jet::verify(x);''),
          [\<lparr>r_attempt = 1, r_success = False,
             r_error = Some (PStr (py ''Compilation failed: expected program'')),
             r_code = PStr (py ''assert!(x);'')\<rparr>,
           \<lparr>r_attempt = 2, r_success = True, r_error = None,
             r_code = PStr (py ''jet::verify(x);'')\<rparr>])"
proof -
  let ?h = "[\<lparr>h_attempt = 1, h_code = py ''1 + 1'', h_success = False,
             h_result = py ''Compilation failed: expected program''\<rparr>,
           \<lparr>h_attempt = 2, h_code = py ''fn main() -> () {\<newline>1 + 1\<newline>()\<newline>}\<newline>'',
             h_success = True, h_result = py '' Compilation successful!\<newline>\<newline>Output:\<newline>{}''\<rparr>]"
  let ?h' = "[\<lparr>r_attempt = 1, r_success = False,
             r_error = Some (PStr (py ''Compilation failed: expected program'')),
             r_code = PStr (py ''assert!(x);'')\<rparr>,
           \<lparr>r_attempt = 2, r_success = True, r_error = None,
             r_code = PStr (py ''jet::verify(x);'')\<rparr>]"
  have run: "compile_and_fix no_alnum no_json second_try_session (py ''1 + 1'') [] 5 False =
     Inr (True, py ''fn main() -> () {\<newline>1 + 1\<newline>()\<newline>}\<newline>'', ?h)"
    by code_simp
  have run': "compile_with_retries no_alnum no_json no_text second_try_session offline_agent
        (py ''assert!(x);'') [] 5 = Inr (True, PStr (py ''jet::verify(x);''), ?h')"
    by code_simp
  have k: "(1::nat) < length ?h" "(1::nat) < length ?h'" by simp_all
  note a = success_ends_the_run[THEN conjunct1, rule_format, OF run k(1)]
  note b = success_ends_the_run[THEN conjunct2, rule_format, OF run' k(2)]
  from a b run run' show ?thesis
    by (simp add: second_try_session_def)
qed






text \<open>
  Claim C3, as amended. The claim that every run makes at least one attempt fails: with
  \<open>max_attempts = 0\<close> (which \<open>--max-attempts=0\<close> sets) the range of the loop is empty, no
  attempt is made and the history is empty. What holds: in every run that returns, the
  history has at most \<open>max_attempts\<close> entries (none if \<open>max_attempts\<close> is not positive), at
  least one if \<open>max_attempts\<close> is at least 1, and the entry \<open>i\<close> (from 0) carries the attempt
  number \<open>i + 1\<close>; so the number of the last attempt made is the length of the history.
  A run that returns an empty history reports failure with the initial source.
\<close>

theorem attempt_count_amended:
  "(compile_and_fix ua loads session src w m use_llm = Inr (ok, fin, h) \<longrightarrow>
      int (length h) \<le> max 0 m \<and> (1 \<le> m \<longrightarrow> 1 \<le> length h)
      \<and> (\<forall>i < length h. h_attempt (h ! i) = int i + 1)
      \<and> (h = [] \<longrightarrow> fin = src \<and> \<not> ok))
   \<and> (compile_with_retries ua loads exn_text session' self src w m = Inr (ok', fin', h') \<longrightarrow>
      int (length h') \<le> max 0 m \<and> (1 \<le> m \<longrightarrow> 1 \<le> length h')
      \<and> (\<forall>i < length h'. r_attempt (h' ! i) = int i + 1)
      \<and> (h' = [] \<longrightarrow> fin' = PStr src \<and> \<not> ok'))"
proof (intro conjI impI allI)
  assume run: "compile_and_fix ua loads session src w m use_llm = Inr (ok, fin, h)"
  show "int (length h) \<le> max 0 m" using compile_and_fix_run(1)[OF run] by simp
  show "1 \<le> length h" if "1 \<le> m"
    using compile_and_fix_run(2)[OF run that] by (cases h) auto
  show "h_attempt (h ! i) = int i + 1" if "i < length h" for i
    by (rule compile_and_fix_run(3)[OF run that])
  show "fin = src" if "h = []" using compile_and_fix_run(4)[OF run that] by simp
  show "\<not> ok" if "h = []" using compile_and_fix_run(4)[OF run that] by simp
next
  assume run: "compile_with_retries ua loads exn_text session' self src w m = Inr (ok', fin', h')"
  show "int (length h') \<le> max 0 m" using compile_with_retries_run(1)[OF run] by simp
  show "1 \<le> length h'" if "1 \<le> m"
    using compile_with_retries_run(2)[OF run that] by (cases h') auto
  show "r_attempt (h' ! i) = int i + 1" if "i < length h'" for i
    by (rule compile_with_retries_run(3)[OF run that])
  show "fin' = PStr src" if "h' = []" using compile_with_retries_run(4)[OF run that] by simp
  show "\<not> ok'" if "h' = []" using compile_with_retries_run(4)[OF run that] by simp
qed

theorem attempt_count_witness:
  "compile_and_fix no_alnum no_json rejecting_session (py ''1 + 1'') [] 2 False =
     Inr (False, py ''fn main() -> () {\<newline>1 + 1\<newline>()\<newline>}\<newline>'',
          [\<lparr>h_attempt = 1, h_code = py ''1 + 1'', h_success = False,
             h_result = py ''Compilation failed: expected program''\<rparr>,
           \<lparr>h_attempt = 2, h_code = py ''fn main() -> () {\<newline>1 + 1\<newline>()\<newline>}\<newline>'',
             h_success = False, h_result = py ''Compilation failed: expected program''\<rparr>])
   \<and> compile_with_retries no_alnum no_json no_text second_try_session offline_agent
        (py ''assert!(x);'') [] 5 =
     Inr (True, PStr (py ''jet::verify(x);''),
          [\<lparr>r_attempt = 1, r_success = False,
             r_error = Some (PStr (py ''Compilation failed: expected program'')),
             r_code = PStr (py ''assert!(x);'')\<rparr>,
           \<lparr>r_attempt = 2, r_success = True, r_error = None,
             r_code = PStr (py ''jet::verify(x);'')\<rparr>])
   \<and> (1::int) \<le> 2 \<and> int (Suc (Suc 0)) \<le> max 0 2 \<and> (1::int) \<le> 5 \<and> int (Suc (Suc 0)) \<le> max 0 5"
proof -
  let ?h = "[\<lparr>h_attempt = 1, h_code = py ''1 + 1'', h_success = False,
             h_result = py ''Compilation failed: expected program''\<rparr>,
           \<lparr>h_attempt = 2, h_code = py ''fn main() -> () {\<newline>1 + 1\<newline>()\<newline>}\<newline>'',
             h_success = False, h_result = py ''Compilation failed: expected program''\<rparr>]"
  let ?h' = "[\<lparr>r_attempt = 1, r_success = False,
             r_error = Some (PStr (py ''Compilation failed: expected program'')),
             r_code = PStr (py ''assert!(x);'')\<rparr>,
           \<lparr>r_attempt = 2, r_success = True, r_error = None,
             r_code = PStr (py ''jet::verify(x);'')\<rparr>]"
  have run: "compile_and_fix no_alnum no_json rejecting_session (py ''1 + 1'') [] 2 False =
     Inr (False, py ''fn main() -> () {\<newline>1 + 1\<newline>()\<newline>}\<newline>'', ?h)"
    by code_simp
  have run': "compile_with_retries no_alnum no_json no_text second_try_session offline_agent
        (py ''assert!(x);'') [] 5 = Inr (True, PStr (py ''jet::verify(x);''), ?h')"
    by code_simp
  note a = attempt_count_amended[THEN conjunct1, THEN mp, OF run]
  note b = attempt_count_amended[THEN conjunct2, THEN mp, OF run']
  from a b run run' show ?thesis by simp
qed

theorem attempt_count_counterexample:
  "compile_and_fix no_alnum no_json rejecting_session (py ''1 + 1'') [] 0 False =
     Inr (False, py ''1 + 1'', [])
   \<and> \<not> (1 \<le> length ([] :: attempt_entry list))
   \<and> compile_with_retries no_alnum no_json no_text rejecting_session offline_agent
        (py ''1 + 1'') [] 0 = Inr (False, PStr (py ''1 + 1''), [])
   \<and> \<not> (1 \<le> length ([] :: retry_entry list))"
  by (simp add: compile_and_fix_def compile_with_retries_def)

section \<open>Properties of the Diagnostic Extractor\<close>

text \<open>\<open>sub in s\<close> says that \<open>s\<close> is some text, \<open>sub\<close>, and some text.\<close>

lemma contains_iff: "contains sub s \<longleftrightarrow> (\<exists>a b. s = a @ sub @ b)"
proof (induction s)
  case Nil
  then show ?case by auto
next
  case (Cons c cs)
  show ?case
  proof
    assume "contains sub (c # cs)"
    then consider "prefix sub (c # cs)" | "contains sub cs" by auto
    then show "\<exists>a b. c # cs = a @ sub @ b"
    proof cases
      case 1
      then obtain b where "c # cs = sub @ b" by (auto simp: prefix_def)
      then have "c # cs = [] @ sub @ b" by simp
      then show ?thesis by blast
    next
      case 2
      with Cons.IH obtain a b where "cs = a @ sub @ b" by blast
      then have "c # cs = (c # a) @ sub @ b" by simp
      then show ?thesis by blast
    qed
  next
    assume "\<exists>a b. c # cs = a @ sub @ b"
    then obtain a b where ab: "c # cs = a @ sub @ b" by blast
    show "contains sub (c # cs)"
    proof (cases a)
      case Nil
      with ab have "prefix sub (c # cs)" by (simp add: prefix_def)
      then show ?thesis by simp
    next
      case (Cons x a')
      with ab have "cs = a' @ sub @ b" by simp
      with Cons.IH have "contains sub cs" by blast
      then show ?thesis by simp
    qed
  qed
qed

lemma contains_ascii_ignore:
  assumes "contains sub s" "ascii_ignore sub = sub"
  shows "contains sub (ascii_ignore s)"
proof -
  from assms(1) obtain a b where "s = a @ sub @ b" by (auto simp: contains_iff)
  then have "ascii_ignore s = ascii_ignore a @ sub @ ascii_ignore b"
    using assms(2) by (simp add: ascii_ignore_def)
  then show ?thesis by (auto simp: contains_iff)
qed

lemma marker_is_ascii:
  "ascii_ignore (py ''Compilation successful!'') = py ''Compilation successful!''"
  by (simp add: ascii_ignore_def py_def)

lemma extract_error_absorbs:
  "parse_message loads content = Inl e \<Longrightarrow> extract_error trigger loads content = PStr content"
  by (simp add: extract_error_def)

text \<open>
  Claim C4. The parse of the structured payload cannot raise past the extractor: whenever
  the \<open>try\<close> block raises, whatever the exception, the canonical error is the text the
  extractor was working on (in agent_autofix the response without its non-ASCII
  characters, in agent_claude the response itself). And for every response text that
  contains the success marker, the extractor reports success, whatever \<open>json.loads\<close>
  would do with the rest; the pass of the loop that received it returns success with the
  submitted source and does not raise.
\<close>

theorem extractor_never_raises:
  "(parse_message loads (ascii_ignore content) = Inl e \<longrightarrow>
      snd (extract_autofix loads content) = PStr (ascii_ignore content))
   \<and> (contains (py ''Compilation successful!'') content \<longrightarrow> fst (extract_autofix loads content))
   \<and> (parse_message loads content = Inl e' \<longrightarrow> snd (extract_agent loads content) = PStr content)
   \<and> (contains success_marker_agent content \<longrightarrow> fst (extract_agent loads content))
   \<and> (session a cur w = Inr cs \<longrightarrow> contains (py ''Compilation successful!'') (content_text cs) \<longrightarrow>
        (\<exists>entry. fix_attempts ua loads session w m use_llm (a # rest) cur hist =
                    Inr (True, cur, hist @ [entry])))
   \<and> (session' a cur' w = Inr cs \<longrightarrow> contains success_marker_agent (content_text cs) \<longrightarrow>
        (\<exists>entry. retry_attempts ua loads exn_text session' self w m (a # rest) cur' hist' =
                    Inr (True, cur', hist' @ [entry])))"
proof (intro conjI impI)
  show "snd (extract_autofix loads content) = PStr (ascii_ignore content)"
    if "parse_message loads (ascii_ignore content) = Inl e"
    using extract_error_absorbs[OF that] by (simp add: extract_autofix_def Let_def)
  show "fst (extract_autofix loads content)" if "contains (py ''Compilation successful!'') content"
    using contains_ascii_ignore[OF that marker_is_ascii] by (simp add: extract_autofix_def Let_def)
  show "snd (extract_agent loads content) = PStr content" if "parse_message loads content = Inl e'"
    using extract_error_absorbs[OF that] by (simp add: extract_agent_def)
  show "fst (extract_agent loads content)" if "contains success_marker_agent content"
    using that by (simp add: extract_agent_def)
  show "\<exists>entry. fix_attempts ua loads session w m use_llm (a # rest) cur hist =
                    Inr (True, cur, hist @ [entry])"
    if "session a cur w = Inr cs" "contains (py ''Compilation successful!'') (content_text cs)"
    using that(1) contains_ascii_ignore[OF that(2) marker_is_ascii]
    by (simp add: extract_autofix_def Let_def)
  show "\<exists>entry. retry_attempts ua loads exn_text session' self w m (a # rest) cur' hist' =
                    Inr (True, cur', hist' @ [entry])"
    if "session' a cur' w = Inr cs" "contains success_marker_agent (content_text cs)"
    using that by (simp add: extract_agent_def)
qed

theorem extractor_never_raises_witness:
  "parse_message no_json (ascii_ignore (py ''Error message: {\"result_json\": {\"mess'')) = Inl JSONDecodeError
   \<and> snd (extract_autofix no_json (py ''Error message: {\"result_json\": {\"mess'')) =
       PStr (ascii_ignore (py ''Error message: {\"result_json\": {\"mess''))
   \<and> contains (py ''Compilation successful!'') (9989 # py '' Compilation successful! {\"message\": '')
   \<and> fst (extract_autofix no_json (9989 # py '' Compilation successful! {\"message\": ''))
   \<and> parse_message no_json (py ''Error message: {\"result_json\": {\"mess'') = Inl JSONDecodeError
   \<and> snd (extract_agent no_json (py ''Error message: {\"result_json\": {\"mess'')) =
       PStr (py ''Error message: {\"result_json\": {\"mess'')
   \<and> contains success_marker_agent (9989 # py '' Compilation successful! {\"message\": '')
   \<and> fst (extract_agent no_json (9989 # py '' Compilation successful! {\"message\": ''))
   \<and> (\<exists>entry. fix_attempts no_alnum no_json second_try_session [] 5 False [2, 3] (py ''1 + 1'') [] =
          Inr (True, py ''1 + 1'', [] @ [entry]))
   \<and> (\<exists>entry. retry_attempts no_alnum no_json no_text second_try_session offline_agent [] 5 [2, 3]
          (PStr (py ''1 + 1'')) [] = Inr (True, PStr (py ''1 + 1''), [] @ [entry]))"
proof -
  let ?bad = "py ''Error message: {\"result_json\": {\"mess''"
  let ?good = "9989 # py '' Compilation successful! {\"message\": ''"
  have h1: "parse_message no_json (ascii_ignore ?bad) = Inl JSONDecodeError" by code_simp
  have h2: "contains (py ''Compilation successful!'') ?good" by code_simp
  have h3: "parse_message no_json ?bad = Inl JSONDecodeError" by code_simp
  have h4: "contains success_marker_agent ?good" by code_simp
  have h5: "second_try_session 2 (py ''1 + 1'') [] =
      Inr [success_marker_agent @ py ''\<newline>\<newline>Output:\<newline>{}'']"
    by (simp add: second_try_session_def)
  have h5': "second_try_session 2 (PStr (py ''1 + 1'')) [] =
      Inr [success_marker_agent @ py ''\<newline>\<newline>Output:\<newline>{}'']"
    by (simp add: second_try_session_def)
  have h6: "contains (py ''Compilation successful!'')
      (content_text [success_marker_agent @ py ''\<newline>\<newline>Output:\<newline>{}''])" by code_simp
  have h7: "contains success_marker_agent
      (content_text [success_marker_agent @ py ''\<newline>\<newline>Output:\<newline>{}''])" by code_simp
  note T1 = extractor_never_raises[where loads = no_json and content = ?bad
      and e = JSONDecodeError and e' = JSONDecodeError]
  note T2 = extractor_never_raises[where loads = no_json and content = ?good
      and session = second_try_session and session' = second_try_session and a = 2
      and cur = "py ''1 + 1''" and cur' = "PStr (py ''1 + 1'')" and w = "[]"
      and cs = "[success_marker_agent @ py ''\<newline>\<newline>Output:\<newline>{}'']"
      and ua = no_alnum and exn_text = no_text and self = offline_agent and m = 5
      and use_llm = False and rest = "[3]" and hist = "[]" and hist' = "[]"]
  note c1 = T1[THEN conjunct1, THEN mp, OF h1]
  note c2 = T2[THEN conjunct2, THEN conjunct1, THEN mp, OF h2]
  note c3 = T1[THEN conjunct2, THEN conjunct2, THEN conjunct1, THEN mp, OF h3]
  note c4 = T2[THEN conjunct2, THEN conjunct2, THEN conjunct2, THEN conjunct1, THEN mp, OF h4]
  note c5 = T2[THEN conjunct2, THEN conjunct2, THEN conjunct2, THEN conjunct2,
      THEN conjunct1, THEN mp, OF h5, THEN mp, OF h6]
  note c6 = T2[THEN conjunct2, THEN conjunct2, THEN conjunct2, THEN conjunct2,
      THEN conjunct2, THEN mp, OF h5', THEN mp, OF h7]
  show ?thesis
    by (intro conjI) (rule h1 c1 h2 c2 h3 c3 h4 c4 c5 c6)+
qed

section \<open>Properties of the Delegated Fix Engine\<close>

text \<open>
  Claim C5, as amended. The claim that the result of a fault always has a non-empty
  \<open>fixed_code\<close> fails: the fallback returns what the agent's own rule-based fixer makes
  of the source, and for the empty source (and for \<open>fn main() {}\<close>) that is the empty
  text. What holds, for every source text: when the agent has no client, or when the
  \<open>try\<close> block raises an \<open>Exception\<close> (the call of the service, the access to its
  answer, \<open>json.loads\<close> or the printing of the analysis), the method returns the
  fallback dictionary whose \<open>fixed_code\<close> is the result of
  \<open>SimplicityFixAgent.apply_rule_based_fixes\<close> on the source, with the confidence 0.5
  (no client) or 0.3 (exception), so at most 0.5, and raises nothing.
\<close>

theorem delegated_fault_falls_back:
  "(client self = None \<longrightarrow>
      (\<exists>confidence.
         analyze_and_fix ua loads exn_text self (PStr src) err attempt =
           Inr (fallback_result (agent_apply_rule_based_fixes ua src err)
                  (py ''Rule-based fix applied (no LLM available)'') confidence)
         \<and> confidence = 0.5 \<and> confidence \<le> 0.5))
   \<and> (client self = Some create \<longrightarrow>
        ask_service loads create (PStr src) err attempt = Inl e \<longrightarrow> is_Exception e \<longrightarrow>
        (\<exists>confidence.
           analyze_and_fix ua loads exn_text self (PStr src) err attempt =
             Inr (fallback_result (agent_apply_rule_based_fixes ua src err)
                    (py ''API error, used rule-based fix: '' @ exn_text e) confidence)
           \<and> confidence = 0.3 \<and> confidence \<le> 0.5))"
proof (intro conjI impI)
  assume "client self = None"
  then show "\<exists>confidence.
         analyze_and_fix ua loads exn_text self (PStr src) err attempt =
           Inr (fallback_result (agent_apply_rule_based_fixes ua src err)
                  (py ''Rule-based fix applied (no LLM available)'') confidence)
         \<and> confidence = 0.5 \<and> confidence \<le> 0.5"
    by (intro exI[of _ "0.5"]) (simp add: analyze_and_fix_def agent_rule_fix_def)
next
  assume "client self = Some create"
    "ask_service loads create (PStr src) err attempt = Inl e" "is_Exception e"
  then show "\<exists>confidence.
           analyze_and_fix ua loads exn_text self (PStr src) err attempt =
             Inr (fallback_result (agent_apply_rule_based_fixes ua src err)
                    (py ''API error, used rule-based fix: '' @ exn_text e) confidence)
           \<and> confidence = 0.3 \<and> confidence \<le> 0.5"
    by (intro exI[of _ "0.3"]) (simp add: analyze_and_fix_def agent_rule_fix_def)
qed

theorem delegated_fault_witness:
  "client offline_agent = None
   \<and> analyze_and_fix no_alnum no_json no_text offline_agent (PStr (py ''assert!(x);''))
        (PStr (py ''expected program'')) 1 =
      Inr (fallback_result (py ''jet::verify(x);'')
             (py ''Rule-based fix applied (no LLM available)'') 0.5)
   \<and> client unreachable_agent = Some (\<lambda>attempt source_code error_message. Inl (External 111))
   \<and> ask_service no_json (\<lambda>attempt source_code error_message. Inl (External 111))
        (PStr (py ''assert!(x);'')) (PStr (py ''expected program'')) 1 = Inl (External 111)
   \<and> is_Exception (External 111)
   \<and> analyze_and_fix no_alnum no_json no_text unreachable_agent (PStr (py ''assert!(x);''))
        (PStr (py ''expected program'')) 1 =
      Inr (fallback_result (py ''jet::verify(x);'')
             (py ''API error, used rule-based fix: '' @ no_text (External 111)) 0.3)"
proof -
  have h1: "client offline_agent = None" by (simp add: offline_agent_def)
  have h2: "client unreachable_agent = Some (\<lambda>attempt source_code error_message. Inl (External 111))"
    by (simp add: unreachable_agent_def)
  have h3: "ask_service no_json (\<lambda>attempt source_code error_message. Inl (External 111))
        (PStr (py ''assert!(x);'')) (PStr (py ''expected program'')) 1 = Inl (External 111)"
    by (simp add: ask_service_def)
  have h4: "is_Exception (External 111)" by (simp add: is_Exception_def)
  have fixed: "agent_apply_rule_based_fixes no_alnum (py ''assert!(x);'')
      (PStr (py ''expected program'')) = py ''jet::verify(x);''"
    by code_simp
  note T = delegated_fault_falls_back[where ua = no_alnum and loads = no_json
      and exn_text = no_text and src = "py ''assert!(x);''" and err = "PStr (py ''expected program'')"
      and attempt = 1]
  from T[where self = offline_agent, THEN conjunct1, THEN mp, OF h1] fixed
  have a: "analyze_and_fix no_alnum no_json no_text offline_agent (PStr (py ''assert!(x);''))
        (PStr (py ''expected program'')) 1 =
      Inr (fallback_result (py ''jet::verify(x);'')
             (py ''Rule-based fix applied (no LLM available)'') 0.5)"
    by (auto simp: analyze_and_fix_def agent_rule_fix_def h1)
  from T[where self = unreachable_agent, THEN conjunct2, THEN mp, OF h2, THEN mp, OF h3, THEN mp, OF h4] fixed
  have b: "analyze_and_fix no_alnum no_json no_text unreachable_agent (PStr (py ''assert!(x);''))
        (PStr (py ''expected program'')) 1 =
      Inr (fallback_result (py ''jet::verify(x);'')
             (py ''API error, used rule-based fix: '' @ no_text (External 111)) 0.3)"
    by (auto simp: analyze_and_fix_def agent_rule_fix_def h2 h3 h4)
  show ?thesis
    by (intro conjI) (rule h1 a h2 h3 h4 b)+
qed

theorem delegated_fault_counterexample:
  "analyze_and_fix no_alnum no_json no_text offline_agent (PStr []) (PStr (py ''expected program'')) 1 =
     Inr (PDict [(py ''fixed_code'', PStr []),
                 (py ''explanation'', PStr (py ''Rule-based fix applied (no LLM available)'')),
                 (py ''confidence'', PFloat 0.5)])
   \<and> analyze_and_fix no_alnum no_json no_text unreachable_agent (PStr (py ''fn main() {}''))
        (PStr (py ''expected program'')) 1 =
     Inr (PDict [(py ''fixed_code'', PStr []),
                 (py ''explanation'', PStr (py ''API error, used rule-based fix: '')),
                 (py ''confidence'', PFloat 0.3)])"
  by code_simp

section \<open>Properties of the Batch Runner\<close>

lemma run_test_files_append:
  "run_test_files ua loads session fs m use_llm (xs @ ys) results all_history =
     (case run_test_files ua loads session fs m use_llm xs results all_history of
        ((results', all_history'), None) \<Rightarrow>
          run_test_files ua loads session fs m use_llm ys results' all_history'
      | (st, Some e) \<Rightarrow> (st, Some e))"
  by (induction xs arbitrary: results all_history) (auto split: sum.splits)

lemma run_agent_files_append:
  "run_agent_files ua loads exn_text session self fs m (xs @ ys) results =
     (case run_agent_files ua loads exn_text session self fs m xs results of
        (results', None) \<Rightarrow> run_agent_files ua loads exn_text session self fs m ys results'
      | (results', Some e) \<Rightarrow> (results', Some e))"
  by (induction xs arbitrary: results) (auto split: prod.splits option.splits)

text \<open>
  Claim C6, as amended. The claim that an exception of one case is caught and the
  remaining cases are still processed fails: neither \<open>main\<close> has a handler around a
  case. What holds, for both batch loops: when the cases before a case ran without an
  exception and the case raises, the loop ends with that exception and with the results
  as they were when it was raised (in agent_autofix the results of the cases before it; the
  case itself is not entered); the cases behind it are not run, and \<open>main\<close> raises the
  exception instead of returning an exit code. In agent_claude the results at the raise
  are those of the cases before it, or these with the raising case entered as a success
  (when it was the writing of the fixed code that raised); never with the case entered as
  failed.
\<close>

theorem batch_stops_at_exception:
  "(run_test_files ua loads session fs m use_llm before results all_history =
        ((results', all_history'), None) \<longrightarrow>
      test_file_with_agent ua loads (session name) fs name source witness m use_llm = Inl e \<longrightarrow>
      run_test_files ua loads session fs m use_llm (before @ (name, source, witness) # rest)
        results all_history = ((results', all_history'), Some e))
   \<and> (run_test_files ua loads session fs m use_llm test_files [] [] = (st, Some e) \<longrightarrow>
        main_autofix ua loads session fs m use_llm = Inl e)
   \<and> (run_agent_files ua loads exn_text session' self fs m before results = (results', None) \<longrightarrow>
        process_file ua loads exn_text (session' name) self fs m name source witness results' =
          (results'', Some e) \<longrightarrow>
        run_agent_files ua loads exn_text session' self fs m (before @ (name, source, witness) # rest)
          results = (results'', Some e))
   \<and> (run_agent_files ua loads exn_text session' self fs m test_files [] = (results', Some e) \<longrightarrow>
        main_agent ua loads exn_text session' self fs m = Inl e)
   \<and> (process_file ua loads exn_text (session' name) self fs m name source witness results' =
          (results'', Some e) \<longrightarrow>
        results'' = results' \<or> results'' = AList.update name True results')"
proof -
  have loops: "(run_test_files ua loads session fs m use_llm before results all_history =
        ((results', all_history'), None) \<longrightarrow>
      test_file_with_agent ua loads (session name) fs name source witness m use_llm = Inl e \<longrightarrow>
      run_test_files ua loads session fs m use_llm (before @ (name, source, witness) # rest)
        results all_history = ((results', all_history'), Some e))
   \<and> (run_test_files ua loads session fs m use_llm test_files [] [] = (st, Some e) \<longrightarrow>
        main_autofix ua loads session fs m use_llm = Inl e)
   \<and> (run_agent_files ua loads exn_text session' self fs m before results = (results', None) \<longrightarrow>
        process_file ua loads exn_text (session' name) self fs m name source witness results' =
          (results'', Some e) \<longrightarrow>
        run_agent_files ua loads exn_text session' self fs m (before @ (name, source, witness) # rest)
          results = (results'', Some e))
   \<and> (run_agent_files ua loads exn_text session' self fs m test_files [] = (results', Some e) \<longrightarrow>
        main_agent ua loads exn_text session' self fs m = Inl e)"
    by (simp add: run_test_files_append run_agent_files_append main_autofix_def main_agent_def)
  have recorded: "process_file ua loads exn_text (session' name) self fs m name source witness results' =
          (results'', Some e) \<longrightarrow>
        results'' = results' \<or> results'' = AList.update name True results'"
    by (auto simp: process_file_def split: sum.splits prod.splits if_splits)
  from loops recorded show ?thesis
    by (elim conjE) (intro conjI; assumption)
qed

theorem batch_stops_witness:
  "run_test_files no_alnum no_json accepting_session first_file_missing 5 False [] [] [] = (([], []), None)
   \<and> test_file_with_agent no_alnum no_json (accepting_session (py ''Arithmetic'')) first_file_missing
       (py ''Arithmetic'') (py ''examples/arithmetic.simf'') (py ''examples/arithmetic.wit'') 5 False =
       Inl (External 2)
   \<and> run_test_files no_alnum no_json accepting_session first_file_missing 5 False test_files [] [] =
       (([], []), Some (External 2))
   \<and> main_autofix no_alnum no_json accepting_session first_file_missing 5 False = Inl (External 2)
   \<and> run_agent_files no_alnum no_json no_text accepting_session offline_agent first_file_missing 5 [] [] =
       ([], None)
   \<and> process_file no_alnum no_json no_text (accepting_session (py ''Arithmetic'')) offline_agent
       first_file_missing 5 (py ''Arithmetic'') (py ''examples/arithmetic.simf'')
       (py ''examples/arithmetic.wit'') [] = ([], Some (External 2))
   \<and> run_agent_files no_alnum no_json no_text accepting_session offline_agent first_file_missing 5
        test_files [] = ([], Some (External 2))
   \<and> main_agent no_alnum no_json no_text accepting_session offline_agent first_file_missing 5 =
       Inl (External 2)
   \<and> run_test_files no_alnum no_json accepting_session second_file_missing 5 False test_files [] [] =
       (([(py ''Arithmetic'', True)],
         [(py ''Arithmetic'',
           [\<lparr>h_attempt = 1, h_code = py ''1 + 1'', h_success = True,
              h_result = py '' Compilation successful!\<newline>\<newline>Output:\<newline>{}''\<rparr>])]),
        Some (External 2))
   \<and> main_autofix no_alnum no_json accepting_session second_file_missing 5 False = Inl (External 2)
   \<and> run_agent_files no_alnum no_json no_text accepting_session offline_agent second_file_missing 5
        test_files [] = ([(py ''Arithmetic'', True)], Some (External 2))
   \<and> main_agent no_alnum no_json no_text accepting_session offline_agent second_file_missing 5 =
       Inl (External 2)"
proof -
  let ?rest = "tl test_files"
  let ?first = "(py ''Arithmetic'', py ''examples/arithmetic.simf'', py ''examples/arithmetic.wit'')"
  let ?entry = "\<lparr>h_attempt = 1, h_code = py ''1 + 1'', h_success = True,
              h_result = py '' Compilation successful!\<newline>\<newline>Output:\<newline>{}''\<rparr>"
  have tf: "test_files = [] @ ?first # ?rest"
    by (simp add: test_files_def)
  have tf2: "test_files = [?first] @ (py ''Scoping'', py ''examples/scoping.simf'',
      py ''examples/scoping.wit'') # tl ?rest"
    by (simp add: test_files_def)
  have h1: "run_test_files no_alnum no_json accepting_session first_file_missing 5 False [] [] [] =
      (([], []), None)" by simp
  have h2: "test_file_with_agent no_alnum no_json (accepting_session (py ''Arithmetic''))
      first_file_missing (py ''Arithmetic'') (py ''examples/arithmetic.simf'')
      (py ''examples/arithmetic.wit'') 5 False = Inl (External 2)"
    by code_simp
  have h3: "run_agent_files no_alnum no_json no_text accepting_session offline_agent
      first_file_missing 5 [] [] = ([], None)" by simp
  have h4: "process_file no_alnum no_json no_text (accepting_session (py ''Arithmetic'')) offline_agent
       first_file_missing 5 (py ''Arithmetic'') (py ''examples/arithmetic.simf'')
       (py ''examples/arithmetic.wit'') [] = ([], Some (External 2))"
    by code_simp
  have g1: "run_test_files no_alnum no_json accepting_session second_file_missing 5 False [?first] [] [] =
      (([(py ''Arithmetic'', True)], [(py ''Arithmetic'', [?entry])]), None)"
    by code_simp
  have g2: "test_file_with_agent no_alnum no_json (accepting_session (py ''Scoping''))
      second_file_missing (py ''Scoping'') (py ''examples/scoping.simf'')
      (py ''examples/scoping.wit'') 5 False = Inl (External 2)"
    by code_simp
  have g3: "run_agent_files no_alnum no_json no_text accepting_session offline_agent
      second_file_missing 5 [?first] [] = ([(py ''Arithmetic'', True)], None)"
    by code_simp
  have g4: "process_file no_alnum no_json no_text (accepting_session (py ''Scoping'')) offline_agent
       second_file_missing 5 (py ''Scoping'') (py ''examples/scoping.simf'')
       (py ''examples/scoping.wit'') [(py ''Arithmetic'', True)] =
       ([(py ''Arithmetic'', True)], Some (External 2))"
    by code_simp
  note T = batch_stops_at_exception[where ua = no_alnum and loads = no_json
      and session = accepting_session and session' = accepting_session and fs = first_file_missing
      and m = 5 and use_llm = False and exn_text = no_text and self = offline_agent
      and before = "[]" and results = "[]" and all_history = "[]" and rest = ?rest
      and name = "py ''Arithmetic''" and source = "py ''examples/arithmetic.simf''"
      and witness = "py ''examples/arithmetic.wit''" and e = "External 2"]
  note U = batch_stops_at_exception[where ua = no_alnum and loads = no_json
      and session = accepting_session and session' = accepting_session and fs = second_file_missing
      and m = 5 and use_llm = False and exn_text = no_text and self = offline_agent
      and before = "[?first]" and results = "[]" and all_history = "[]" and rest = "tl ?rest"
      and name = "py ''Scoping''" and source = "py ''examples/scoping.simf''"
      and witness = "py ''examples/scoping.wit''" and e = "External 2"]
  have a: "run_test_files no_alnum no_json accepting_session first_file_missing 5 False test_files [] [] =
       (([], []), Some (External 2))"
    by (subst tf) (rule T[THEN conjunct1, THEN mp, OF h1, THEN mp, OF h2])
  have b: "main_autofix no_alnum no_json accepting_session first_file_missing 5 False = Inl (External 2)"
    using T[THEN conjunct2, THEN conjunct1, THEN mp, OF a] .
  have c: "run_agent_files no_alnum no_json no_text accepting_session offline_agent first_file_missing 5
        test_files [] = ([], Some (External 2))"
    by (subst tf) (rule T[THEN conjunct2, THEN conjunct2, THEN conjunct1, THEN mp, OF h3, THEN mp, OF h4])
  have d: "main_agent no_alnum no_json no_text accepting_session offline_agent first_file_missing 5 =
       Inl (External 2)"
    using T[THEN conjunct2, THEN conjunct2, THEN conjunct2, THEN conjunct1, THEN mp, OF c] .
  have a': "run_test_files no_alnum no_json accepting_session second_file_missing 5 False test_files [] [] =
       (([(py ''Arithmetic'', True)], [(py ''Arithmetic'', [?entry])]), Some (External 2))"
    by (subst tf2) (rule U[THEN conjunct1, THEN mp, OF g1, THEN mp, OF g2])
  have b': "main_autofix no_alnum no_json accepting_session second_file_missing 5 False = Inl (External 2)"
    using U[THEN conjunct2, THEN conjunct1, THEN mp, OF a'] .
  have c': "run_agent_files no_alnum no_json no_text accepting_session offline_agent second_file_missing 5
        test_files [] = ([(py ''Arithmetic'', True)], Some (External 2))"
    by (subst tf2) (rule U[THEN conjunct2, THEN conjunct2, THEN conjunct1, THEN mp, OF g3, THEN mp, OF g4])
  have d': "main_agent no_alnum no_json no_text accepting_session offline_agent second_file_missing 5 =
       Inl (External 2)"
    using U[THEN conjunct2, THEN conjunct2, THEN conjunct2, THEN conjunct1, THEN mp, OF c'] .
  have "[(py ''Arithmetic'', True)] = [(py ''Arithmetic'', True)]
      \<or> [(py ''Arithmetic'', True)] = AList.update (py ''Scoping'') True [(py ''Arithmetic'', True)]"
    by (rule U[THEN conjunct2, THEN conjunct2, THEN conjunct2, THEN conjunct2, THEN mp, OF g4])
  show ?thesis
    by (intro conjI) (rule h1 h2 a b h3 h4 c d a' b' c' d')+
qed

theorem batch_stops_counterexample:
  "test_file_with_agent no_alnum no_json (accepting_session (py ''Arithmetic'')) first_file_missing
     (py ''Arithmetic'') (py ''examples/arithmetic.simf'') (py ''examples/arithmetic.wit'') 5 False =
     Inl (External 2)
   \<and> run_test_files no_alnum no_json accepting_session first_file_missing 5 False test_files [] [] =
       (([], []), Some (External 2))
   \<and> main_autofix no_alnum no_json accepting_session first_file_missing 5 False = Inl (External 2)
   \<and> run_agent_files no_alnum no_json no_text accepting_session offline_agent first_file_missing 5
        test_files [] = ([], Some (External 2))
   \<and> main_agent no_alnum no_json no_text accepting_session offline_agent first_file_missing 5 =
       Inl (External 2)"
  by code_simp

section \<open>Properties of the Pattern Fix Engine\<close>

text \<open>
  Claim C8. For the source \<open>1 + 1\<close> with the canonical error \<open>expected program\<close> the
  Pattern Fix Engine returns the source wrapped in the declaration \<open>fn main() -> () {\<close>
  (no argument, no return value) up to the closing brace; the body holds the original
  source and ends in the unit expression \<open>()\<close>. The unit expression has lost the indent
  that the wrapping step gave it, because the wrapper-removal step, whose trigger
  \<open>fn main()\<close> is now in the text, dedents every line.
\<close>

theorem scenario_A_wraps_source:
  "apply_rule_based_fixes ua (py ''1 + 1'') (py ''expected program'') =
     py ''fn main() -> () {\<newline>1 + 1\<newline>()\<newline>}\<newline>''"
  by code_simp

subsection \<open>White space\<close>

text \<open>What \<open>strip\<close> returns has no white space at either end, and \<open>strip\<close> leaves such a text alone.\<close>

lemma dropWhile_fixed: "xs = [] \<or> \<not> P (hd xs) \<Longrightarrow> dropWhile P xs = xs"
  by (cases xs) auto

lemma strip_hd: "strip s \<noteq> [] \<Longrightarrow> \<not> is_space (hd (strip s))"
proof -
  assume ne: "strip s \<noteq> []"
  let ?t = "dropWhile is_space s"
  have t: "?t = strip s @ rev (takeWhile is_space (rev ?t))"
    unfolding strip_def by (metis rev_append rev_rev_ident takeWhile_dropWhile_id)
  then have "?t \<noteq> []" using ne by (metis append_is_Nil_conv)
  then have "\<not> is_space (hd ?t)" by (rule hd_dropWhile)
  moreover have "hd ?t = hd (strip s)" using ne by (subst t) simp
  ultimately show ?thesis by simp
qed

lemma strip_last: "strip s \<noteq> [] \<Longrightarrow> \<not> is_space (last (strip s))"
proof -
  assume ne: "strip s \<noteq> []"
  let ?d = "dropWhile is_space (rev (dropWhile is_space s))"
  from ne have d: "?d \<noteq> []" by (simp add: strip_def)
  then have "\<not> is_space (hd ?d)" by (rule hd_dropWhile)
  moreover have "last (strip s) = hd ?d" using d by (simp add: strip_def last_rev)
  ultimately show ?thesis by simp
qed

lemma strip_fixed:
  assumes "t = [] \<or> (\<not> is_space (hd t) \<and> \<not> is_space (last t))"
  shows "strip t = t"
proof (cases "t = []")
  case True
  then show ?thesis by (simp add: strip_def)
next
  case False
  with assms have h: "\<not> is_space (hd t)" and l: "\<not> is_space (last t)" by auto
  have 1: "dropWhile is_space t = t" using h by (simp add: dropWhile_fixed)
  have "hd (rev t) = last t" using False by (simp add: hd_rev)
  then have 2: "dropWhile is_space (rev t) = rev t" using l by (simp add: dropWhile_fixed)
  show ?thesis by (simp add: strip_def 1 2)
qed

lemma strip_strip: "strip (strip s) = strip s"
  by (rule strip_fixed) (use strip_hd strip_last in blast)

lemma strip_fixed_iff: "strip t = t \<longleftrightarrow> t = [] \<or> (\<not> is_space (hd t) \<and> \<not> is_space (last t))"
  using strip_fixed strip_hd strip_last by metis

text \<open>Without any trigger in the error or the source, only the last line of the function acts.\<close>

lemma no_rule_fires:
  assumes "\<not> contains (py ''expected program'') err"
    "\<not> contains (py ''expected EOI or item'') err"
    "\<not> contains (py ''fn main()'') src" "\<not> contains (py ''fn main ('') src"
    "\<not> (contains (py ''let ('') src \<and> contains (py '',)'') src)"
  shows "apply_rule_based_fixes ua src err = strip src @ py ''\<newline>''"
  using assms
  by (auto simp: apply_rule_based_fixes_def add_wrapper_def remove_comments_def
      remove_wrapper_def tuple_patterns_def)

lemma output_shape:
  "\<exists>t. apply_rule_based_fixes ua src err = t @ py ''\<newline>'' \<and> strip t = t"
  by (simp add: apply_rule_based_fixes_def Let_def strip_strip)

lemma newline_text: "py ''\<newline>'' = [10]"
  by (simp add: py_def)

text \<open>
  Claim C10. For every input the output of the Pattern Fix Engine is some text without
  white space at either end, followed by one newline. When no trigger of a rule is
  present, this text is the stripped source. So the output differs from every source that
  is not itself of this form, whether or not a rule fires: from a source that does not end
  in a newline, from one that starts with white space (other than the source that is a
  single newline, which is the form with the empty text), and from one with white space
  before its final newline. The one newline that ends the normal form is not counted as
  trailing white space of the source: the source \<open>x = 1\<close> with a final newline is returned
  as it is.
\<close>

theorem output_is_whitespace_normalized:
  "(\<exists>t. apply_rule_based_fixes ua src err = t @ py ''\<newline>'' \<and> strip t = t
        \<and> (t = [] \<or> (\<not> is_space (hd t) \<and> \<not> is_space (last t))))
   \<and> (\<not> contains (py ''expected program'') err \<and> \<not> contains (py ''expected EOI or item'') err
        \<and> \<not> contains (py ''fn main()'') src \<and> \<not> contains (py ''fn main ('') src
        \<and> \<not> (contains (py ''let ('') src \<and> contains (py '',)'') src) \<longrightarrow>
        apply_rule_based_fixes ua src err = strip src @ py ''\<newline>'')
   \<and> ((\<nexists>t. src = t @ py ''\<newline>'' \<and> strip t = t) \<longrightarrow> apply_rule_based_fixes ua src err \<noteq> src)
   \<and> (src = [] \<or> last src \<noteq> 10 \<longrightarrow> apply_rule_based_fixes ua src err \<noteq> src)
   \<and> (src \<noteq> [] \<and> is_space (hd src) \<and> src \<noteq> py ''\<newline>'' \<longrightarrow>
        apply_rule_based_fixes ua src err \<noteq> src)
   \<and> ((\<exists>t c. src = t @ [c, 10] \<and> is_space c) \<longrightarrow> apply_rule_based_fixes ua src err \<noteq> src)"
proof -
  obtain t where t: "apply_rule_based_fixes ua src err = t @ [10]" "strip t = t"
    using output_shape[of ua src err] by (auto simp: newline_text)
  have shape: "t = [] \<or> (\<not> is_space (hd t) \<and> \<not> is_space (last t))"
    using t(2) by (simp add: strip_fixed_iff)
  have 1: "\<exists>t. apply_rule_based_fixes ua src err = t @ py ''\<newline>'' \<and> strip t = t
        \<and> (t = [] \<or> (\<not> is_space (hd t) \<and> \<not> is_space (last t)))"
    using t shape by (auto simp: newline_text)
  have 2: "apply_rule_based_fixes ua src err = strip src @ py ''\<newline>''"
    if "\<not> contains (py ''expected program'') err \<and> \<not> contains (py ''expected EOI or item'') err
        \<and> \<not> contains (py ''fn main()'') src \<and> \<not> contains (py ''fn main ('') src
        \<and> \<not> (contains (py ''let ('') src \<and> contains (py '',)'') src)"
    using that by (intro no_rule_fires) auto
  have 3: "apply_rule_based_fixes ua src err \<noteq> src"
    if "\<nexists>t. src = t @ py ''\<newline>'' \<and> strip t = t"
    using that t by (auto simp: newline_text)
  have 4: "apply_rule_based_fixes ua src err \<noteq> src" if "src = [] \<or> last src \<noteq> 10"
    using that t(1) by auto
  have 5: "apply_rule_based_fixes ua src err \<noteq> src"
    if "src \<noteq> [] \<and> is_space (hd src) \<and> src \<noteq> py ''\<newline>''"
  proof
    assume eq: "apply_rule_based_fixes ua src err = src"
    with t(1) have s: "src = t @ [10]" by simp
    with that have "t \<noteq> []" by (auto simp: newline_text)
    with s have "hd src = hd t" by simp
    with that shape \<open>t \<noteq> []\<close> show False by simp
  qed
  have 6: "apply_rule_based_fixes ua src err \<noteq> src" if "\<exists>t c. src = t @ [c, 10] \<and> is_space c"
  proof
    assume eq: "apply_rule_based_fixes ua src err = src"
    from that obtain u c where u: "src = u @ [c, 10]" "is_space c" by blast
    with eq t(1) have "t = u @ [c]" by simp
    with shape u(2) show False by simp
  qed
  from 1 2 3 4 5 6 show ?thesis by blast
qed

theorem output_is_whitespace_normalized_witness:
  "apply_rule_based_fixes no_alnum (py ''  x = 1'') (py ''type mismatch'') = py ''x = 1\<newline>''
   \<and> apply_rule_based_fixes no_alnum (py ''  x = 1'') (py ''type mismatch'') \<noteq> py ''  x = 1''
   \<and> apply_rule_based_fixes no_alnum (py ''x = 1 \<newline>'') (py ''type mismatch'') \<noteq> py ''x = 1 \<newline>''
   \<and> apply_rule_based_fixes no_alnum (py ''x = 1\<newline>'') (py ''type mismatch'') = py ''x = 1\<newline>''"
proof -
  let ?e = "py ''type mismatch''"
  have h2: "\<not> contains (py ''expected program'') ?e \<and> \<not> contains (py ''expected EOI or item'') ?e
        \<and> \<not> contains (py ''fn main()'') (py ''  x = 1'') \<and> \<not> contains (py ''fn main ('') (py ''  x = 1'')
        \<and> \<not> (contains (py ''let ('') (py ''  x = 1'') \<and> contains (py '',)'') (py ''  x = 1''))"
    by code_simp
  have h2': "\<not> contains (py ''expected program'') ?e \<and> \<not> contains (py ''expected EOI or item'') ?e
        \<and> \<not> contains (py ''fn main()'') (py ''x = 1\<newline>'') \<and> \<not> contains (py ''fn main ('') (py ''x = 1\<newline>'')
        \<and> \<not> (contains (py ''let ('') (py ''x = 1\<newline>'') \<and> contains (py '',)'') (py ''x = 1\<newline>''))"
    by code_simp
  have h4: "py ''  x = 1'' = [] \<or> last (py ''  x = 1'') \<noteq> 10" by (simp add: py_def)
  have h5: "py ''  x = 1'' \<noteq> [] \<and> is_space (hd (py ''  x = 1'')) \<and> py ''  x = 1'' \<noteq> py ''\<newline>''"
    by (simp add: py_def is_space_def)
  have h6: "\<exists>t c. py ''x = 1 \<newline>'' = t @ [c, 10] \<and> is_space c"
    by (intro exI[of _ "py ''x = 1''"] exI[of _ 32]) (simp add: py_def is_space_def)
  have s1: "strip (py ''  x = 1'') = py ''x = 1''" by code_simp
  have s2: "strip (py ''x = 1\<newline>'') = py ''x = 1''" by code_simp
  note A = output_is_whitespace_normalized[where ua = no_alnum and src = "py ''  x = 1''" and err = ?e]
  note B = output_is_whitespace_normalized[where ua = no_alnum and src = "py ''x = 1 \<newline>''" and err = ?e]
  note C = output_is_whitespace_normalized[where ua = no_alnum and src = "py ''x = 1\<newline>''" and err = ?e]
  have a: "apply_rule_based_fixes no_alnum (py ''  x = 1'') ?e = py ''x = 1\<newline>''"
    using A[THEN conjunct2, THEN conjunct1, THEN mp, OF h2] by (simp add: s1) (simp add: py_def)
  have b: "apply_rule_based_fixes no_alnum (py ''  x = 1'') ?e \<noteq> py ''  x = 1''"
    using A[THEN conjunct2, THEN conjunct2, THEN conjunct2, THEN conjunct1, THEN mp, OF h4]
      A[THEN conjunct2, THEN conjunct2, THEN conjunct2, THEN conjunct2, THEN conjunct1, THEN mp, OF h5]
    by simp
  have c: "apply_rule_based_fixes no_alnum (py ''x = 1 \<newline>'') ?e \<noteq> py ''x = 1 \<newline>''"
    using B[THEN conjunct2, THEN conjunct2, THEN conjunct2, THEN conjunct2, THEN conjunct2, THEN mp, OF h6] .
  have d: "apply_rule_based_fixes no_alnum (py ''x = 1\<newline>'') ?e = py ''x = 1\<newline>''"
    using C[THEN conjunct2, THEN conjunct1, THEN mp, OF h2'] by (simp add: s2) (simp add: py_def)
  show ?thesis
    by (intro conjI) (rule a b c d)+
qed

subsection \<open>The wrapper\<close>

text \<open>
  The declaration that the first rule writes is the first line of the text, and stays the
  first line through all later steps: the patterns of \<open>re.sub\<close> match neither in it nor
  at the newline behind it, and the line is no comment and is not indented.
\<close>

lemma split_nl_nonempty: "split_nl s \<noteq> []"
  by (induction s) (auto split: list.splits)

lemma split_nl_single: "10 \<notin> set h \<Longrightarrow> split_nl h = [h]"
  by (induction h) auto

lemma split_nl_first: "10 \<notin> set h \<Longrightarrow> split_nl (h @ 10 # r) = h # split_nl r"
proof (induction h)
  case Nil
  then show ?case using split_nl_nonempty[of r] by (cases "split_nl r") auto
next
  case (Cons a h)
  then show ?case by simp
qed

lemma first_line_lines:
  assumes "first_line h x" "10 \<notin> set h"
  obtains ls where "split_nl x = h # ls"
  using assms split_nl_single split_nl_first unfolding first_line_def by metis

lemma first_line_join: "first_line h (join_nl (h # ls))"
  by (cases ls) (auto simp: first_line_def)

lemmas header_eval = py_def lit_def spaces0_def spaces1_def is_space_def

lemma header_no_newline: "10 \<notin> set (py ''fn main() -> () {'')"
  by (simp add: py_def)

lemma header_strip: "strip (py ''fn main() -> () {'') = py ''fn main() -> () {''"
  by (simp add: py_def strip_def is_space_def)

lemma add_wrapper_first_line:
  "contains (py ''expected program'') err \<Longrightarrow>
   first_line (py ''fn main() -> () {'') (add_wrapper err src)"
  by (simp add: add_wrapper_def first_line_def py_def)

lemma remove_comments_first_line:
  assumes "first_line (py ''fn main() -> () {'') x"
  shows "first_line (py ''fn main() -> () {'') (remove_comments err x)"
proof (cases "contains (py ''expected EOI or item'') err")
  case False
  with assms show ?thesis by (simp add: remove_comments_def)
next
  case True
  from assms header_no_newline obtain ls where ls: "split_nl x = py ''fn main() -> () {'' # ls"
    by (rule first_line_lines)
  have keep: "\<not> startswith (strip (py ''fn main() -> () {'')) (py ''//'')"
    by (simp add: header_strip) (simp add: startswith_def py_def)
  show ?thesis
    using True by (simp add: remove_comments_def ls keep first_line_join)
qed

lemma fn_main_not_at_header:
  "match_fn_main (py ''fn main() -> () {'' @ r) = None"
  by (simp add: match_fn_main_def header_eval)

lemma re_sub_fn_main_header:
  "re_sub match_fn_main (py ''fn main() -> () {'' @ r) =
     py ''fn main() -> () {'' @ re_sub match_fn_main r"
  by (simp add: match_fn_main_def header_eval)

lemma re_sub_fn_main_newline:
  "re_sub match_fn_main (10 # r) = 10 # re_sub match_fn_main r"
  by (simp add: match_fn_main_def header_eval)

lemma re_sub_let_tuple_header:
  "re_sub (match_let_tuple ua) (py ''fn main() -> () {'' @ r) =
     py ''fn main() -> () {'' @ re_sub (match_let_tuple ua) r"
  by (simp add: match_let_tuple_def header_eval)

lemma re_sub_let_tuple_newline:
  "re_sub (match_let_tuple ua) (10 # r) = 10 # re_sub (match_let_tuple ua) r"
  by (simp add: match_let_tuple_def header_eval)

lemma re_sub_first_line:
  assumes "first_line (py ''fn main() -> () {'') x"
    "\<And>r. re_sub m (py ''fn main() -> () {'' @ r) = py ''fn main() -> () {'' @ re_sub m r"
    "\<And>r. re_sub m (10 # r) = 10 # re_sub m r"
  shows "first_line (py ''fn main() -> () {'') (re_sub m x)"
proof -
  from assms(1) consider "x = py ''fn main() -> () {'' @ []" | r where "x = py ''fn main() -> () {'' @ 10 # r"
    by (auto simp: first_line_def)
  then show ?thesis
  proof cases
    case 1
    then show ?thesis unfolding 1 assms(2) by (simp add: first_line_def)
  next
    case 2
    show ?thesis unfolding 2 assms(2) assms(3) by (simp add: first_line_def)
  qed
qed

lemma header_contains_trigger:
  assumes "first_line (py ''fn main() -> () {'') x"
  shows "contains (py ''fn main()'') x"
proof -
  from assms obtain r where "x = py ''fn main() -> () {'' @ r"
    by (auto simp: first_line_def)
  then have "x = [] @ py ''fn main()'' @ (py '' -> () {'' @ r)" by (simp add: py_def)
  then show ?thesis unfolding contains_iff by blast
qed

lemma remove_wrapper_first_line:
  assumes "first_line (py ''fn main() -> () {'') x"
  shows "first_line (py ''fn main() -> () {'') (remove_wrapper x)"
proof -
  have "first_line (py ''fn main() -> () {'') (re_sub match_fn_main x)"
    using assms re_sub_fn_main_header re_sub_fn_main_newline by (rule re_sub_first_line)
  from this header_no_newline obtain ls where
    ls: "split_nl (re_sub match_fn_main x) = py ''fn main() -> () {'' # ls"
    by (rule first_line_lines)
  have keep: "dedent (py ''fn main() -> () {'') = py ''fn main() -> () {''"
    by (simp add: dedent_def startswith_def py_def)
  show ?thesis
    using header_contains_trigger[OF assms]
    by (simp add: remove_wrapper_def ls keep first_line_join)
qed

lemma tuple_patterns_first_line:
  assumes "first_line (py ''fn main() -> () {'') x"
  shows "first_line (py ''fn main() -> () {'') (tuple_patterns ua x)"
proof -
  have "first_line (py ''fn main() -> () {'') (re_sub (match_let_tuple ua) x)"
    using assms re_sub_let_tuple_header re_sub_let_tuple_newline by (rule re_sub_first_line)
  with assms show ?thesis by (simp add: tuple_patterns_def)
qed

lemma strip_keeps_header:
  assumes "first_line (py ''fn main() -> () {'') x"
  shows "prefix (py ''fn main() -> () {'') (strip x)"
proof -
  let ?h = "py ''fn main() -> () {''"
  from assms obtain r where x: "x = ?h @ r" by (auto simp: first_line_def)
  have front: "dropWhile is_space (?h @ r) = ?h @ r"
    by (simp add: py_def is_space_def)
  have tail_eq: "dropWhile is_space (rev ?h) = rev ?h"
    by (simp add: py_def is_space_def)
  have "dropWhile is_space (rev r @ rev ?h) =
      (if \<forall>c \<in> set (rev r). is_space c then rev ?h else dropWhile is_space (rev r) @ rev ?h)"
    by (simp add: dropWhile_append tail_eq del: set_rev)
  then have "strip x = ?h \<or> strip x = ?h @ rev (dropWhile is_space (rev r))"
    by (simp add: strip_def x front split: if_splits)
  then show ?thesis by auto
qed

lemma wrapper_survives:
  assumes "contains (py ''expected program'') err"
  shows "prefix (py ''fn main() -> () {'') (apply_rule_based_fixes ua src err)"
proof -
  have "first_line (py ''fn main() -> () {'')
          (tuple_patterns ua (remove_wrapper (remove_comments err (add_wrapper err src))))"
    by (intro tuple_patterns_first_line remove_wrapper_first_line remove_comments_first_line
        add_wrapper_first_line assms)
  then have "prefix (py ''fn main() -> () {'')
      (strip (tuple_patterns ua (remove_wrapper (remove_comments err (add_wrapper err src)))))"
    by (rule strip_keeps_header)
  then show ?thesis
    by (simp add: apply_rule_based_fixes_def Let_def)
qed

text \<open>
  Claim C7, as amended. The claim that for some input a single call adds the wrapper and
  then removes it again fails. For every input whose error has the trigger of rule 1, the
  call wraps the source, and the trigger \<open>fn main()\<close> of the wrapper-removal rule is then
  in the text, so that rule runs in the same pass; but its pattern wants the opening brace
  directly behind the parameter list and so does not match at the declaration
  \<open>fn main() -> () {\<close> that rule 1 wrote, whatever follows it. The output of the call
  always starts with that declaration.
\<close>

theorem wrapper_is_not_removed:
  "contains (py ''expected program'') err \<longrightarrow>
     contains (py ''fn main()'') (remove_comments err (add_wrapper err src))
     \<and> match_fn_main (py ''fn main() -> () {'' @ rest) = None
     \<and> prefix (py ''fn main() -> () {'') (apply_rule_based_fixes ua src err)"
proof (intro impI conjI)
  assume t: "contains (py ''expected program'') err"
  have "first_line (py ''fn main() -> () {'') (remove_comments err (add_wrapper err src))"
    by (intro remove_comments_first_line add_wrapper_first_line t)
  then show "contains (py ''fn main()'') (remove_comments err (add_wrapper err src))"
    by (rule header_contains_trigger)
  show "match_fn_main (py ''fn main() -> () {'' @ rest) = None"
    by (rule fn_main_not_at_header)
  show "prefix (py ''fn main() -> () {'') (apply_rule_based_fixes ua src err)"
    using t by (rule wrapper_survives)
qed

theorem wrapper_is_not_removed_witness:
  "contains (py ''expected program'') (py ''error: expected program'')
   \<and> contains (py ''fn main()'')
        (remove_comments (py ''error: expected program'')
           (add_wrapper (py ''error: expected program'') (py ''fn main() {\<newline>    let (x,) = 1;\<newline>}'')))
   \<and> match_fn_main (py ''fn main() -> () {'' @ py ''\<newline>1 + 1\<newline>    ()\<newline>}'') = None
   \<and> apply_rule_based_fixes no_alnum (py ''fn main() {\<newline>    let (x,) = 1;\<newline>}'')
         (py ''error: expected program'') =
       py ''fn main() -> () {\<newline>\<newline>let x = 1;\<newline>}\<newline>()\<newline>''
   \<and> prefix (py ''fn main() -> () {'')
        (apply_rule_based_fixes no_alnum (py ''fn main() {\<newline>    let (x,) = 1;\<newline>}'')
           (py ''error: expected program''))"
proof -
  have h: "contains (py ''expected program'') (py ''error: expected program'')" by code_simp
  have v: "apply_rule_based_fixes no_alnum (py ''fn main() {\<newline>    let (x,) = 1;\<newline>}'')
         (py ''error: expected program'') =
       py ''fn main() -> () {\<newline>\<newline>let x = 1;\<newline>}\<newline>()\<newline>''"
    by code_simp
  note T = wrapper_is_not_removed[where err = "py ''error: expected program''"
      and src = "py ''fn main() {\<newline>    let (x,) = 1;\<newline>}''" and ua = no_alnum
      and rest = "py ''\<newline>1 + 1\<newline>    ()\<newline>}''", THEN mp, OF h]
  show ?thesis
    by (intro conjI) (rule h v T[THEN conjunct1] T[THEN conjunct2, THEN conjunct1]
        T[THEN conjunct2, THEN conjunct2])+
qed

theorem wrapper_removal_counterexample:
  "\<not> (\<exists>ua src err. contains (py ''expected program'') err
         \<and> \<not> prefix (py ''fn main() -> () {'') (apply_rule_based_fixes ua src err))"
  using wrapper_survives by blast

subsection \<open>The two rule-based fixers\<close>

text \<open>A substitution whose pattern matches nowhere returns the text.\<close>

lemma re_sub_no_match:
  "(\<And>t. suffix t s \<Longrightarrow> m t = None) \<Longrightarrow> re_sub m s = s"
proof (induction s)
  case Nil
  then show ?case by simp
next
  case (Cons c cs)
  have "m (c # cs) = None" by (rule Cons.prems) simp
  moreover have "re_sub m cs = cs"
    by (rule Cons.IH) (simp add: Cons.prems suffix_Cons)
  ultimately show ?case by simp
qed

lemma lit_absent:
  assumes "\<not> contains p s" "suffix t s"
  shows "lit p t = None"
proof -
  have "\<not> prefix p t"
  proof
    assume "prefix p t"
    then obtain b where "t = p @ b" by (auto simp: prefix_def)
    moreover from assms(2) obtain a where "s = a @ t" by (auto simp: suffix_def)
    ultimately have "s = a @ p @ b" by simp
    with assms(1) show False by (auto simp: contains_iff)
  qed
  then show ?thesis by (simp add: lit_def)
qed

lemma agent_fixer_no_trigger:
  assumes "\<not> contains (py ''fn main()'') src" "\<not> contains (py ''let'') src"
    "\<not> contains (py ''assert!('') src"
  shows "agent_apply_rule_based_fixes ua src err = src"
proof -
  have 1: "re_sub (match_let_jet ua) src = src"
    by (rule re_sub_no_match) (simp add: match_let_jet_def lit_absent[OF assms(2)])
  have 2: "re_sub match_assert src = src"
    by (rule re_sub_no_match) (simp add: match_assert_def lit_absent[OF assms(3)])
  show ?thesis
    using assms(1) by (simp add: agent_apply_rule_based_fixes_def 1 2)
qed

text \<open>
  Claim C9, as amended. The two rule-based fixers are different functions: on the source
  \<open>1 + 1\<close> with the error \<open>expected program\<close> the Pattern Fix Engine returns the wrapped
  source and the fixer of the delegated engine returns the source. What holds: the fixer
  of the delegated engine does not depend on the error, and returns a source that
  contains none of \<open>fn main()\<close>, \<open>let\<close> and \<open>assert!(\<close> as it is; on such a source, with
  no trigger of the Pattern Fix Engine in the error or the source, the Pattern Fix Engine
  returns the stripped source and a newline, so the two agree exactly when the source
  already is its stripped text followed by one newline.
\<close>

theorem fixers_differ:
  "agent_apply_rule_based_fixes ua src err = agent_apply_rule_based_fixes ua src err'
   \<and> (\<not> contains (py ''fn main()'') src \<and> \<not> contains (py ''let'') src
        \<and> \<not> contains (py ''assert!('') src \<longrightarrow>
        agent_apply_rule_based_fixes ua src err = src)
   \<and> (\<not> contains (py ''expected program'') err \<and> \<not> contains (py ''expected EOI or item'') err
        \<and> \<not> contains (py ''fn main()'') src \<and> \<not> contains (py ''fn main ('') src
        \<and> \<not> contains (py ''let'') src \<and> \<not> contains (py ''assert!('') src \<longrightarrow>
        apply_rule_based_fixes ua src err = strip src @ py ''\<newline>''
        \<and> (apply_rule_based_fixes ua src err = agent_apply_rule_based_fixes ua src err
             \<longleftrightarrow> src = strip src @ py ''\<newline>''))"
proof (intro conjI impI)
  show "agent_apply_rule_based_fixes ua src err = agent_apply_rule_based_fixes ua src err'"
    by (simp add: agent_apply_rule_based_fixes_def)
  show "agent_apply_rule_based_fixes ua src err = src"
    if "\<not> contains (py ''fn main()'') src \<and> \<not> contains (py ''let'') src
        \<and> \<not> contains (py ''assert!('') src"
    using that by (intro agent_fixer_no_trigger) auto
  assume a: "\<not> contains (py ''expected program'') err \<and> \<not> contains (py ''expected EOI or item'') err
        \<and> \<not> contains (py ''fn main()'') src \<and> \<not> contains (py ''fn main ('') src
        \<and> \<not> contains (py ''let'') src \<and> \<not> contains (py ''assert!('') src"
  have "\<not> contains (py ''let ('') src"
  proof
    assume "contains (py ''let ('') src"
    then obtain x y where "src = x @ py ''let ('' @ y" by (auto simp: contains_iff)
    then have "src = x @ py ''let'' @ (py '' ('' @ y)" by (simp add: py_def)
    with a show False by (auto simp: contains_iff)
  qed
  with a show p: "apply_rule_based_fixes ua src err = strip src @ py ''\<newline>''"
    by (intro no_rule_fires) auto
  from a have "agent_apply_rule_based_fixes ua src err = src"
    by (intro agent_fixer_no_trigger) auto
  with p show "apply_rule_based_fixes ua src err = agent_apply_rule_based_fixes ua src err
             \<longleftrightarrow> src = strip src @ py ''\<newline>''"
    by auto
qed

theorem fixers_differ_witness:
  "agent_apply_rule_based_fixes no_alnum (py ''x = 1'') (py ''type mismatch'') = py ''x = 1''
   \<and> apply_rule_based_fixes no_alnum (py ''x = 1'') (py ''type mismatch'') = py ''x = 1\<newline>''
   \<and> apply_rule_based_fixes no_alnum (py ''x = 1'') (py ''type mismatch'') \<noteq>
       agent_apply_rule_based_fixes no_alnum (py ''x = 1'') (py ''type mismatch'')
   \<and> apply_rule_based_fixes no_alnum (py ''x = 1\<newline>'') (py ''type mismatch'') =
       agent_apply_rule_based_fixes no_alnum (py ''x = 1\<newline>'') (py ''type mismatch'')"
proof -
  let ?e = "py ''type mismatch''"
  have h: "\<not> contains (py ''expected program'') ?e \<and> \<not> contains (py ''expected EOI or item'') ?e
        \<and> \<not> contains (py ''fn main()'') (py ''x = 1'') \<and> \<not> contains (py ''fn main ('') (py ''x = 1'')
        \<and> \<not> contains (py ''let'') (py ''x = 1'') \<and> \<not> contains (py ''assert!('') (py ''x = 1'')"
    by code_simp
  have h': "\<not> contains (py ''expected program'') ?e \<and> \<not> contains (py ''expected EOI or item'') ?e
        \<and> \<not> contains (py ''fn main()'') (py ''x = 1\<newline>'') \<and> \<not> contains (py ''fn main ('') (py ''x = 1\<newline>'')
        \<and> \<not> contains (py ''let'') (py ''x = 1\<newline>'') \<and> \<not> contains (py ''assert!('') (py ''x = 1\<newline>'')"
    by code_simp
  have g: "\<not> contains (py ''fn main()'') (py ''x = 1'') \<and> \<not> contains (py ''let'') (py ''x = 1'')
        \<and> \<not> contains (py ''assert!('') (py ''x = 1'')"
    using h by simp
  have s1: "strip (py ''x = 1'') @ py ''\<newline>'' = py ''x = 1\<newline>''" by code_simp
  have s2: "py ''x = 1\<newline>'' = strip (py ''x = 1\<newline>'') @ py ''\<newline>''" by code_simp
  have ne: "py ''x = 1'' \<noteq> py ''x = 1\<newline>''" by (simp add: py_def)
  note A = fixers_differ[where ua = no_alnum and src = "py ''x = 1''" and err = ?e and err' = ?e]
  note B = fixers_differ[where ua = no_alnum and src = "py ''x = 1\<newline>''" and err = ?e and err' = ?e]
  have a: "agent_apply_rule_based_fixes no_alnum (py ''x = 1'') ?e = py ''x = 1''"
    using A[THEN conjunct2, THEN conjunct1, THEN mp, OF g] .
  have b: "apply_rule_based_fixes no_alnum (py ''x = 1'') ?e = py ''x = 1\<newline>''"
    using A[THEN conjunct2, THEN conjunct2, THEN mp, OF h, THEN conjunct1] s1 by simp
  have c: "apply_rule_based_fixes no_alnum (py ''x = 1'') ?e \<noteq>
       agent_apply_rule_based_fixes no_alnum (py ''x = 1'') ?e"
    unfolding a b using ne by simp
  have d: "apply_rule_based_fixes no_alnum (py ''x = 1\<newline>'') ?e =
       agent_apply_rule_based_fixes no_alnum (py ''x = 1\<newline>'') ?e"
    using B[THEN conjunct2, THEN conjunct2, THEN mp, OF h', THEN conjunct2] s2 by blast
  show ?thesis
    by (intro conjI) (rule a b c d)+
qed

theorem fixers_differ_counterexample:
  "apply_rule_based_fixes no_alnum (py ''1 + 1'') (py ''expected program'') =
     py ''fn main() -> () {\<newline>1 + 1\<newline>()\<newline>}\<newline>''
   \<and> agent_apply_rule_based_fixes no_alnum (py ''1 + 1'') (py ''expected program'') = py ''1 + 1''
   \<and> apply_rule_based_fixes no_alnum (py ''1 + 1'') (py ''expected program'') \<noteq>
       agent_apply_rule_based_fixes no_alnum (py ''1 + 1'') (py ''expected program'')"
  by code_simp

end
